theory Spec2Isabelle
  imports Complex_Main "HOL-Library.Char_ord" "HOL-Library.List_Lexorder"
begin

unbundle bit_operations_syntax

section \<open>Floating point numbers\<close>

text \<open>
  A \<^verbatim>\<open>float64\<close> is a rational number that has 53 significant bits and an exponent in
  the range of the format, an infinity, or not a number. The sign of zero is not kept:
  the program only adds, multiplies and divides numbers that are not negative. Every
  operation gives the exact result rounded to the nearest \<^verbatim>\<open>float64\<close>, to the even one
  when two are as near (no fused multiplication and addition, as on amd64).
\<close>

datatype float64 = Finite rat | PosInf | NegInf | NaN

definition pow2 :: "int \<Rightarrow> rat" where
  "pow2 e = (if 0 \<le> e then 2 ^ nat e else 1 / 2 ^ nat (- e))"

function ilog2 :: "nat \<Rightarrow> nat" where
  "ilog2 n = (if n < 2 then 0 else Suc (ilog2 (n div 2)))"
  by pat_completeness auto
termination
  by (relation "measure id") auto

declare ilog2.simps [simp del]

text \<open>\<open>expo q\<close> is the exponent of a positive \<open>q\<close>: \<open>2 ^ expo q \<le> q < 2 ^ (expo q + 1)\<close>.\<close>

definition expo :: "rat \<Rightarrow> int" where
  "expo q =
     (if 1 \<le> q then int (ilog2 (nat \<lfloor>q\<rfloor>))
      else - int (Suc (ilog2 (nat (\<lceil>1 / q\<rceil> - 1)))))"

definition round_even :: "rat \<Rightarrow> int" where
  "round_even x =
     (let f = \<lfloor>x\<rfloor>; r = x - of_int f
      in if r < 1 / 2 then f else if 1 / 2 < r then f + 1 else if even f then f else f + 1)"

text \<open>
  Rounding a positive number: the unit of the last place is \<open>2 ^ (expo q - 52)\<close>, and
  \<open>2 ^ (- 1074)\<close> for the subnormal numbers; a result of \<open>2 ^ 1024\<close> or more is infinite.
\<close>

definition round_pos :: "rat \<Rightarrow> float64" where
  "round_pos q =
     (let p = max (expo q - 52) (- 1074);
          v = of_int (round_even (q / pow2 p)) * pow2 p
      in if pow2 1024 \<le> v then PosInf else Finite v)"

definition round64 :: "rat \<Rightarrow> float64" where
  "round64 q =
     (if q = 0 then Finite 0
      else if 0 < q then round_pos q
      else (case round_pos (- q) of Finite v \<Rightarrow> Finite (- v) | PosInf \<Rightarrow> NegInf | r \<Rightarrow> r))"

fun f_add :: "float64 \<Rightarrow> float64 \<Rightarrow> float64" where
  "f_add (Finite x) (Finite y) = round64 (x + y)"
| "f_add NaN b = NaN"
| "f_add a NaN = NaN"
| "f_add PosInf NegInf = NaN"
| "f_add NegInf PosInf = NaN"
| "f_add PosInf b = PosInf"
| "f_add NegInf b = NegInf"
| "f_add (Finite x) b = b"

fun f_mul :: "float64 \<Rightarrow> float64 \<Rightarrow> float64" where
  "f_mul (Finite x) (Finite y) = round64 (x * y)"
| "f_mul NaN b = NaN"
| "f_mul a NaN = NaN"
| "f_mul (Finite x) PosInf = (if x = 0 then NaN else if 0 < x then PosInf else NegInf)"
| "f_mul (Finite x) NegInf = (if x = 0 then NaN else if 0 < x then NegInf else PosInf)"
| "f_mul PosInf (Finite y) = (if y = 0 then NaN else if 0 < y then PosInf else NegInf)"
| "f_mul NegInf (Finite y) = (if y = 0 then NaN else if 0 < y then NegInf else PosInf)"
| "f_mul PosInf PosInf = PosInf"
| "f_mul PosInf NegInf = NegInf"
| "f_mul NegInf PosInf = NegInf"
| "f_mul NegInf NegInf = PosInf"

fun f_div :: "float64 \<Rightarrow> float64 \<Rightarrow> float64" where
  "f_div (Finite x) (Finite y) =
     (if y = 0 then (if x = 0 then NaN else if 0 < x then PosInf else NegInf)
      else round64 (x / y))"
| "f_div NaN b = NaN"
| "f_div a NaN = NaN"
| "f_div (Finite x) b = Finite 0"
| "f_div PosInf (Finite y) = (if 0 \<le> y then PosInf else NegInf)"
| "f_div NegInf (Finite y) = (if 0 \<le> y then NegInf else PosInf)"
| "f_div a b = NaN"

text \<open>
  \<^verbatim>\<open>math.Pow10(n)\<close> for an \<open>n\<close> that is not negative: the product of two entries of
  the library's tables, which hold the literals \<^verbatim>\<open>1e0\<close> to \<^verbatim>\<open>1e31\<close> and \<^verbatim>\<open>1e0\<close>,
  \<^verbatim>\<open>1e32\<close>, ... \<^verbatim>\<open>1e288\<close>; infinity beyond \<^verbatim>\<open>1e308\<close>.
\<close>

definition pow10tab :: "nat \<Rightarrow> float64" where
  "pow10tab i = round64 (10 ^ i)"

definition pow10postab32 :: "nat \<Rightarrow> float64" where
  "pow10postab32 i = round64 (10 ^ (32 * i))"

definition Pow10 :: "nat \<Rightarrow> float64" where
  "Pow10 n =
     (if n \<le> 308 then f_mul (pow10postab32 (n div 32)) (pow10tab (n mod 32)) else PosInf)"

section \<open>Strings, runes and the numeric conversion routine\<close>

text \<open>
  A Go string is read by the program through its runes (\<^verbatim>\<open>[]rune(match)\<close>, and the
  regular expression engine). A rune is a code point, an \<^verbatim>\<open>int32\<close>; text is modelled
  as the list of its code points. Names and paths, which the program only concatenates
  and compares, are plain byte strings.
\<close>

type_synonym rune = int

definition runes :: "string \<Rightarrow> rune list" where
  "runes s = map (\<lambda>c. int (of_char c)) s"

text \<open>
  \<^verbatim>\<open>unicode.IsDigit\<close>: up to \<^verbatim>\<open>MaxLatin1\<close> (255) the decimal digits are
  \<^verbatim>\<open>'0'..'9'\<close>; beyond, the library looks the rune up in its table of the category Nd.
  That table is not part of this repository: it is the parameter \<open>nd\<close>. It holds, among
  others, the Arabic-Indic digits U+0660 to U+0669.
\<close>

definition IsDigit :: "(rune \<Rightarrow> bool) \<Rightarrow> rune \<Rightarrow> bool" where
  "IsDigit nd r = (if r \<le> 255 then 48 \<le> r \<and> r \<le> 57 else nd r)"

definition arabic_indic :: "rune \<Rightarrow> bool" where
  "arabic_indic r = (1632 \<le> r \<and> r \<le> 1641)"

text \<open>
  \<^verbatim>\<open>get_float\<close>, first loop: one pass over the runes of the match, keeping the digits
  in \<open>filtered\<close>, remembering whether a \<^verbatim>\<open>'.'\<close> (46) was seen and counting the digits
  after it. The state is \<open>(filtered, found_decimal, decimal_offset)\<close>.
\<close>

fun filter_digits ::
  "(rune \<Rightarrow> bool) \<Rightarrow> rune list \<Rightarrow> rune list \<times> bool \<times> nat \<Rightarrow> rune list \<times> bool \<times> nat"
  where
  "filter_digits nd [] st = st"
| "filter_digits nd (r # rs) (filtered, found_decimal, decimal_offset) =
     filter_digits nd rs
       (if IsDigit nd r
        then (filtered @ [r], found_decimal,
              if found_decimal then decimal_offset + 1 else decimal_offset)
        else if r = 46 then (filtered, True, decimal_offset)
        else (filtered, found_decimal, decimal_offset))"

text \<open>
  Second loop: \<^verbatim>\<open>value = value * 10 + float64(byte(d - '0'))\<close>, a multiplication and
  an addition of \<^verbatim>\<open>float64\<close>. The conversion to \<^verbatim>\<open>byte\<close> keeps the low eight bits, and
  a byte is a \<^verbatim>\<open>float64\<close> as it is.
\<close>

definition digit_byte :: "rune \<Rightarrow> int" where
  "digit_byte d = (d - 48) mod 256"

fun assemble :: "rune list \<Rightarrow> float64 \<Rightarrow> float64" where
  "assemble [] v = v"
| "assemble (d # ds) v =
     assemble ds (f_add (f_mul v (Finite 10)) (Finite (of_int (digit_byte d))))"

definition get_float :: "(rune \<Rightarrow> bool) \<Rightarrow> rune list \<Rightarrow> float64" where
  "get_float nd match =
     (case filter_digits nd match ([], False, 0) of
        (filtered, found_decimal, decimal_offset) \<Rightarrow>
          f_div (assemble filtered (Finite 0)) (Pow10 decimal_offset))"

text \<open>
  The conversion as the specification words it: the digit characters of the string, each
  worth its decimal digit, read as one decimal integer, and that integer divided by ten
  to the number of digits after the decimal point.
\<close>

definition spec_digits :: "(rune \<Rightarrow> bool) \<Rightarrow> rune list \<Rightarrow> rune list" where
  "spec_digits nd s = filter (IsDigit nd) s"

definition spec_integer :: "(rune \<Rightarrow> bool) \<Rightarrow> rune list \<Rightarrow> int" where
  "spec_integer nd s = foldl (\<lambda>v d. v * 10 + (d - 48)) 0 (spec_digits nd s)"

definition spec_decimal_offset :: "(rune \<Rightarrow> bool) \<Rightarrow> rune list \<Rightarrow> nat" where
  "spec_decimal_offset nd s = length (filter (IsDigit nd) (dropWhile (\<lambda>r. r \<noteq> 46) s))"

definition spec_float :: "(rune \<Rightarrow> bool) \<Rightarrow> rune list \<Rightarrow> rat" where
  "spec_float nd s = of_int (spec_integer nd s) / 10 ^ spec_decimal_offset nd s"

definition strip_commas :: "rune list \<Rightarrow> rune list" where
  "strip_commas s = filter (\<lambda>r. r \<noteq> 44) s"

section \<open>Errors and the data model\<close>

text \<open>
  A Go \<^verbatim>\<open>error\<close> is a value with a message. The program makes its own with
  \<^verbatim>\<open>errors.New\<close>, receives others from the operating system and the libraries, and
  compares against the sentinel \<^verbatim>\<open>io.EOF\<close>.
\<close>

datatype error = EOF | Os string | New string

fun Error :: "error \<Rightarrow> string" where
  "Error EOF = ''EOF''"
| "Error (Os s) = s"
| "Error (New s) = s"

record Configuration =
  Src :: string
  Stats :: string
  Bin :: string

record Benchmark =
  Name :: string
  Path :: string
  Runtime :: float64
  Uncertainty :: float64

text \<open>\<^verbatim>\<open>path(elements ...string)\<close>: the elements joined by \<^verbatim>\<open>"/"\<close>.\<close>

fun path :: "string list \<Rightarrow> string" where
  "path [] = []"
| "path [e] = e"
| "path (e # es) = foldl (\<lambda>p e. p @ ''/'' @ e) e es"

section \<open>Regular expressions\<close>

text \<open>
  The two patterns of \<^verbatim>\<open>get_benchmark_results\<close> use character ranges, literals, the
  wildcard \<^verbatim>\<open>.\<close> (any rune but the newline), the class \<^verbatim>\<open>\s\<close> (which is
  \<^verbatim>\<open>[\t\n\f\r ]\<close> in Go), concatenation and the greedy \<^verbatim>\<open>?\<close>, \<^verbatim>\<open>*\<close>, \<^verbatim>\<open>+\<close>.
\<close>

datatype regex =
    Range rune rune
  | Lit rune
  | AnyChar
  | Space
  | Cat regex regex
  | Opt regex
  | Star regex
  | Plus regex

text \<open>
  \<open>ends re s\<close> lists what is left of \<open>s\<close> after each way \<open>re\<close> matches a prefix of
  it, in the order a backtracking search finds them: Go's \<^verbatim>\<open>regexp\<close> returns the
  leftmost match and, among those, the one a backtracking search finds first. \<open>iter\<close>
  is the greedy repetition: one more round of the body (which has to consume
  something) before the empty repetition; its counter starts at the length of the text,
  so it never runs out.
\<close>

fun iter :: "(rune list \<Rightarrow> rune list list) \<Rightarrow> nat \<Rightarrow> rune list \<Rightarrow> rune list list" where
  "iter f 0 s = [s]"
| "iter f (Suc n) s =
     concat (map (\<lambda>t. if length t < length s then iter f n t else []) (f s)) @ [s]"

fun ends :: "regex \<Rightarrow> rune list \<Rightarrow> rune list list" where
  "ends (Range a b) s = (case s of [] \<Rightarrow> [] | c # cs \<Rightarrow> if a \<le> c \<and> c \<le> b then [cs] else [])"
| "ends (Lit a) s = (case s of [] \<Rightarrow> [] | c # cs \<Rightarrow> if c = a then [cs] else [])"
| "ends AnyChar s = (case s of [] \<Rightarrow> [] | c # cs \<Rightarrow> if c \<noteq> 10 then [cs] else [])"
| "ends Space s =
     (case s of [] \<Rightarrow> [] | c # cs \<Rightarrow> if c \<in> {9, 10, 12, 13, 32} then [cs] else [])"
| "ends (Cat p q) s = concat (map (\<lambda>t. ends q t) (ends p s))"
| "ends (Opt p) s = ends p s @ [s]"
| "ends (Star p) s = iter (\<lambda>t. ends p t) (length s) s"
| "ends (Plus p) s = concat (map (\<lambda>t. iter (\<lambda>u. ends p u) (length t) t) (ends p s))"

text \<open>
  \<^verbatim>\<open>reg.FindStringSubmatch(line)[0]\<close>: the text of the leftmost match, if there is
  one.
\<close>

fun find_first :: "regex \<Rightarrow> rune list \<Rightarrow> rune list option" where
  "find_first re s =
     (case ends re s of
        t # _ \<Rightarrow> Some (take (length s - length t) s)
      | [] \<Rightarrow> (case s of [] \<Rightarrow> None | _ # cs \<Rightarrow> find_first re cs))"

definition rn :: "char \<Rightarrow> rune" where
  "rn c = int (of_char c)"

text \<open>\<^verbatim>\<open>"([0-9],?)+\\s*ns"\<close>\<close>

definition match_duration_exp :: regex where
  "match_duration_exp =
     Cat (Plus (Cat (Range (rn CHR ''0'') (rn CHR ''9'')) (Opt (Lit (rn CHR '','')))))
       (Cat (Star Space) (Cat (Lit (rn CHR ''n'')) (Lit (rn CHR ''s''))))"

text \<open>\<^verbatim>\<open>"[0-9]+.[0-9]+%"\<close>\<close>

definition match_uncertainty_exp :: regex where
  "match_uncertainty_exp =
     Cat (Plus (Range (rn CHR ''0'') (rn CHR ''9'')))
       (Cat AnyChar (Cat (Plus (Range (rn CHR ''0'') (rn CHR ''9''))) (Lit (rn CHR ''%''))))"

definition match_exp :: "rune list \<Rightarrow> regex \<Rightarrow> error + rune list" where
  "match_exp line expr =
     (case find_first expr line of
        None \<Rightarrow> Inl (New ''No match found!'')
      | Some m \<Rightarrow> Inr m)"

section \<open>The file system\<close>

text \<open>
  The part of the file system below the working directory of the process: a tree of
  plain files (their text) and directories (their mode and their entries). Paths are
  relative to the root of the tree; symbolic links and \<^verbatim>\<open>..\<close> are not modelled, and
  of the access rights only the owner's permission to list a directory (\<^verbatim>\<open>0400\<close>, 256)
  and to make an entry in it (\<^verbatim>\<open>0200\<close>, 128).
\<close>

datatype node = File "rune list" | Dir nat "(string \<times> node) list"

datatype FileInfo = FileInfo (fname: string) (IsDir: bool)

fun is_directory :: "node \<Rightarrow> bool" where
  "is_directory (File c) = False"
| "is_directory (Dir m es) = True"

fun split_path :: "string \<Rightarrow> string list" where
  "split_path [] = [[]]"
| "split_path (c # cs) =
     (if c = CHR ''/'' then [] # split_path cs
      else (case split_path cs of [] \<Rightarrow> [[c]] | x # xs \<Rightarrow> (c # x) # xs))"

fun walk :: "node \<Rightarrow> string list \<Rightarrow> node option" where
  "walk n [] = Some n"
| "walk (File c) (x # xs) = None"
| "walk (Dir m es) (x # xs) =
     (if x = [] \<or> x = ''.'' then walk (Dir m es) xs
      else (case map_of es x of None \<Rightarrow> None | Some n \<Rightarrow> walk n xs))"

definition resolve :: "node \<Rightarrow> string \<Rightarrow> node option" where
  "resolve fs p = (if p = [] then None else walk fs (split_path p))"

text \<open>\<^verbatim>\<open>ioutil.ReadDir\<close>: the entries of a directory, sorted by name.\<close>

definition ReadDir :: "node \<Rightarrow> string \<Rightarrow> error + FileInfo list" where
  "ReadDir fs dirname =
     (case resolve fs dirname of
        None \<Rightarrow> Inl (Os (''open '' @ dirname @ '': no such file or directory''))
      | Some (File c) \<Rightarrow> Inl (Os (''readdirent '' @ dirname @ '': not a directory''))
      | Some (Dir m es) \<Rightarrow>
          if m AND 256 = 0 then Inl (Os (''open '' @ dirname @ '': permission denied''))
          else Inr (sort_key fname (map (\<lambda>(n, x). FileInfo n (is_directory x)) es)))"

text \<open>\<^verbatim>\<open>os.Open\<close> opens files and directories alike; reading a directory then fails.\<close>

definition os_Open :: "node \<Rightarrow> string \<Rightarrow> error + node" where
  "os_Open fs name =
     (case resolve fs name of
        None \<Rightarrow> Inl (Os (''open '' @ name @ '': no such file or directory''))
      | Some n \<Rightarrow> Inr n)"

text \<open>
  \<^verbatim>\<open>os.Mkdir(name, perm)\<close>: the parent has to be a writable directory and the last
  component must not exist. The new directory gets the requested permission bits less
  those of the process's file mode creation mask.
\<close>

fun update_entry ::
  "string \<Rightarrow> node \<Rightarrow> (string \<times> node) list \<Rightarrow> (string \<times> node) list" where
  "update_entry k v [] = []"
| "update_entry k v ((k', v') # es) =
     (if k' = k then (k, v) # es else (k', v') # update_entry k v es)"

fun mkdir_at :: "node \<Rightarrow> string list \<Rightarrow> nat \<Rightarrow> string + node" where
  "mkdir_at n [] mode = Inl ''no such file or directory''"
| "mkdir_at (File c) (x # xs) mode = Inl ''not a directory''"
| "mkdir_at (Dir m es) [x] mode =
     (if x = ''.'' \<or> x = ''..'' then Inl ''file exists''
      else (case map_of es x of
              Some n \<Rightarrow> Inl ''file exists''
            | None \<Rightarrow>
                if m AND 128 = 0 then Inl ''permission denied''
                else Inr (Dir m (es @ [(x, Dir mode [])]))))"
| "mkdir_at (Dir m es) (x # y # ys) mode =
     (if x = ''.'' then mkdir_at (Dir m es) (y # ys) mode
      else (case map_of es x of
              None \<Rightarrow> Inl ''no such file or directory''
            | Some n \<Rightarrow>
                (case mkdir_at n (y # ys) mode of
                   Inl e \<Rightarrow> Inl e
                 | Inr n' \<Rightarrow> Inr (Dir m (update_entry x n' es)))))"

definition os_Mkdir :: "node \<Rightarrow> nat \<Rightarrow> string \<Rightarrow> nat \<Rightarrow> error option \<times> node" where
  "os_Mkdir fs um name perm =
     (case mkdir_at fs (filter (\<lambda>x. x \<noteq> []) (split_path name)) (perm - (perm AND um)) of
        Inl e \<Rightarrow> (Some (Os (''mkdir '' @ name @ '': '' @ e)), fs)
      | Inr fs' \<Rightarrow> (None, fs'))"

text \<open>
  \<^verbatim>\<open>bufio.NewReader(file)\<close> and \<^verbatim>\<open>reader.ReadBytes(delim)\<close>: the bytes up to and
  including the delimiter, or what is left together with \<^verbatim>\<open>io.EOF\<close>.
\<close>

datatype reader = Bytes "rune list" | Failing error

fun NewReader :: "node \<Rightarrow> reader" where
  "NewReader (File c) = Bytes c"
| "NewReader (Dir m es) = Failing (Os ''read: is a directory'')"

fun ReadBytes :: "reader \<Rightarrow> rune \<Rightarrow> rune list \<times> error option \<times> reader" where
  "ReadBytes (Failing e) delim = ([], Some e, Failing e)"
| "ReadBytes (Bytes s) delim =
     (if delim \<in> set s
      then (takeWhile (\<lambda>r. r \<noteq> delim) s @ [delim], None,
            Bytes (tl (dropWhile (\<lambda>r. r \<noteq> delim) s)))
      else (s, Some EOF, Bytes []))"

fun unread :: "reader \<Rightarrow> nat" where
  "unread (Failing e) = 0"
| "unread (Bytes s) = length s"

section \<open>The world of the process\<close>

text \<open>
  \<^verbatim>\<open>exec.Command(name, arg...)\<close> builds a command; \<^verbatim>\<open>cmd.Run()\<close> starts it and waits.
  What a started process does to the file system belongs to the compiler and to the
  measurement tool: it is the parameter \<open>run_cmd\<close>; \<open>nd_table\<close> is the table of
  \<^verbatim>\<open>unicode.IsDigit\<close> and \<open>format_f2\<close> the verb \<^verbatim>\<open>%.2f\<close> of \<^verbatim>\<open>fmt\<close>. The state keeps the commands that
  were started and the lines written to the standard output. A \<^verbatim>\<open>*Benchmark\<close> is an
  address of the heap.
\<close>

record Cmd =
  cmd_name :: string
  cmd_args :: "string list"

record extern =
  nd_table :: "rune \<Rightarrow> bool"
  run_cmd :: "Cmd \<Rightarrow> node \<Rightarrow> error option \<times> node"
  format_f2 :: "float64 \<Rightarrow> string"

record world =
  files :: node
  umask :: nat
  heap :: "nat \<Rightarrow> Benchmark"
  next_addr :: nat
  spawned :: "Cmd list"
  stdout :: "string list"

definition Run :: "extern \<Rightarrow> Cmd \<Rightarrow> world \<Rightarrow> error option \<times> world" where
  "Run X c w =
     (case run_cmd X c (files w) of
        (err, fs') \<Rightarrow> (err, w\<lparr>files := fs', spawned := spawned w @ [c]\<rparr>))"

definition Println :: "string \<Rightarrow> world \<Rightarrow> world" where
  "Println s w = w\<lparr>stdout := stdout w @ [s]\<rparr>"

definition new_Benchmark :: "Benchmark \<Rightarrow> world \<Rightarrow> nat \<times> world" where
  "new_Benchmark b w =
     (next_addr w, w\<lparr>heap := (heap w)(next_addr w := b), next_addr := Suc (next_addr w)\<rparr>)"

section \<open>Internal package functions\<close>

text \<open>\<^verbatim>\<open>directory_contains_file\<close>: is there an entry of that name in the directory?\<close>

fun has_entry :: "string \<Rightarrow> FileInfo list \<Rightarrow> bool" where
  "has_entry name [] = False"
| "has_entry name (f # fl) = (if fname f = name then True else has_entry name fl)"

definition directory_contains_file :: "string \<Rightarrow> string \<Rightarrow> node \<Rightarrow> error + bool" where
  "directory_contains_file name directory fs =
     (case ReadDir fs directory of
        Inl err \<Rightarrow> Inl err
      | Inr fl \<Rightarrow> Inr (has_entry name fl))"

text \<open>\<^verbatim>\<open>strings.HasSuffix\<close>\<close>

definition HasSuffix :: "string \<Rightarrow> string \<Rightarrow> bool" where
  "HasSuffix s suffix =
     (length suffix \<le> length s \<and> drop (length s - length suffix) s = suffix)"

fun files_with_suffix :: "string \<Rightarrow> string \<Rightarrow> FileInfo list \<Rightarrow> string list \<Rightarrow> string list" where
  "files_with_suffix directory suffix [] bag = bag"
| "files_with_suffix directory suffix (file # fl) bag =
     files_with_suffix directory suffix fl
       (if IsDir file then bag
        else if HasSuffix (fname file) suffix then bag @ [directory @ ''/'' @ fname file]
        else bag)"

definition get_files_by_suffix :: "string \<Rightarrow> string \<Rightarrow> node \<Rightarrow> error + string list" where
  \<open>get_files_by_suffix directory suffix fs =
     (case ReadDir fs directory of
        Inl err \<Rightarrow>
          Inl (New (''Unable to read directory "'' @ directory @ ''", reason: '' @ Error err))
      | Inr fl \<Rightarrow> Inr (files_with_suffix directory suffix fl []))\<close>

definition Command :: "string \<Rightarrow> string list \<Rightarrow> Cmd" where
  "Command name arg = \<lparr>cmd_name = name, cmd_args = arg\<rparr>"

definition NoSourceFiles :: error where
  "NoSourceFiles = New ''No source files found to compile''"

definition get_compile_command ::
  "string \<Rightarrow> string \<Rightarrow> string \<Rightarrow> string \<Rightarrow> node \<Rightarrow> error + Cmd" where
  "get_compile_command compiler name src_dir bin_dir fs =
     (let executable_file_path = path [bin_dir, name];
          args = [] @ [''-o''] @ [executable_file_path]
      in case get_files_by_suffix src_dir ''.c'' fs of
           Inl err \<Rightarrow> Inl err
         | Inr source_files \<Rightarrow>
             (let args = args @ source_files
              in if length source_files = 0 then Inl NoSourceFiles
                 else Inr (Command compiler args)))"

definition compile_benchmark ::
  "extern \<Rightarrow> Configuration \<Rightarrow> nat \<Rightarrow> string \<Rightarrow> world \<Rightarrow> error option \<times> world" where
  "compile_benchmark X cfg benchmark compiler w =
     (case get_compile_command compiler (Name (heap w benchmark)) (Path (heap w benchmark))
             (Bin cfg) (files w) of
        Inl err \<Rightarrow> (Some err, w)
      | Inr cmd \<Rightarrow> Run X cmd w)"

text \<open>\<^verbatim>\<open>fmt.Sprintf("%d", n)\<close>\<close>

definition digit_char :: "nat \<Rightarrow> char" where
  "digit_char n = ''0123456789'' ! n"

function decimal :: "nat \<Rightarrow> string" where
  "decimal n =
     (if n < 10 then [digit_char n] else decimal (n div 10) @ [digit_char (n mod 10)])"
  by pat_completeness auto
termination
  by (relation "measure id") auto

definition itoa :: "int \<Rightarrow> string" where
  "itoa i = (if i < 0 then ''-'' @ decimal (nat (- i)) else decimal (nat i))"

definition ExecutableNotFound :: "string \<Rightarrow> string \<Rightarrow> error" where
  \<open>ExecutableNotFound name bin_dir = New (''Executable "'' @ name @ ''" not found in '' @ bin_dir)\<close>

definition evaluate_benchmark ::
  "extern \<Rightarrow> nat \<Rightarrow> Configuration \<Rightarrow> int \<Rightarrow> world \<Rightarrow> error option \<times> world" where
  \<open>evaluate_benchmark X benchmark cfg repeats w =
     (let output_file_name = Name (heap w benchmark) @ ''.txt'';
          output_file_path = path [Stats cfg, output_file_name];
          args = [''chrt'', ''-f'', ''99'', ''perf'', ''stat'', ''-o'', output_file_path,
                  ''-e'', ''duration_time'']
      in case directory_contains_file (Name (heap w benchmark)) (Bin cfg) (files w) of
           Inl err \<Rightarrow>
             (Some (New (''Unable to search directory "'' @ Bin cfg @ ''": '' @ Error err)), w)
         | Inr exists_executable \<Rightarrow>
             if \<not> exists_executable
             then (Some (ExecutableNotFound (Name (heap w benchmark)) (Bin cfg)), w)
             else (let args = args @ [''--repeat='' @ itoa repeats];
                       args = args @ [path [Bin cfg, Name (heap w benchmark)]]
                   in Run X (Command ''sudo'' args) w))\<close>

text \<open>
  The loop of \<^verbatim>\<open>get_benchmark_results\<close>. Each round reads one line; the end of the
  file ends the loop after that round, any other read error returns at once. A line
  that does not match the duration pattern is left by \<^verbatim>\<open>continue\<close>, before the
  uncertainty pattern is tried. The result is the error of an early return, the
  benchmark as written so far, and \<open>found_params\<close>.
\<close>

function scan_lines ::
  "(rune \<Rightarrow> bool) \<Rightarrow> reader \<Rightarrow> Benchmark \<Rightarrow> nat \<Rightarrow> error option \<times> Benchmark \<times> nat" where
  "scan_lines nd rd b found_params =
     (case ReadBytes rd 10 of
        (line, err, rd') \<Rightarrow>
          (case (if err = Some EOF then None else err) of
             Some e \<Rightarrow> (Some e, b, found_params)
           | None \<Rightarrow>
               (case match_exp line match_duration_exp of
                  Inl no_match \<Rightarrow>
                    if err \<noteq> Some EOF then scan_lines nd rd' b found_params
                    else (None, b, found_params)
                | Inr m \<Rightarrow>
                    (let b1 = b\<lparr>Runtime := get_float nd m\<rparr>; found1 = found_params + 1
                     in case match_exp line match_uncertainty_exp of
                          Inl no_match \<Rightarrow>
                            if err \<noteq> Some EOF then scan_lines nd rd' b1 found1
                            else (None, b1, found1)
                        | Inr m' \<Rightarrow>
                            (let b2 = b1\<lparr>Uncertainty := get_float nd m'\<rparr>;
                                 found2 = found1 + 1
                             in if found2 \<ge> 2 then (None, b2, found2)
                                else if err \<noteq> Some EOF then scan_lines nd rd' b2 found2
                                else (None, b2, found2))))))"
  by pat_completeness auto

termination scan_lines
proof -
  have consumes: "unread rd' < unread rd"
    if r: "(line, None, rd') = ReadBytes rd delim" for line rd' rd delim
  proof (cases rd)
    case (Bytes s)
    with r have d: "delim \<in> set s"
      and rd': "rd' = Bytes (tl (dropWhile (\<lambda>r. r \<noteq> delim) s))"
      by (auto split: if_splits)
    from d have "dropWhile (\<lambda>r. r \<noteq> delim) s \<noteq> []"
      by (simp add: dropWhile_eq_Nil_conv)
    then have "length (tl (dropWhile (\<lambda>r. r \<noteq> delim) s))
        < length (dropWhile (\<lambda>r. r \<noteq> delim) s)"
      by (cases "dropWhile (\<lambda>r. r \<noteq> delim) s") simp_all
    also have "\<dots> \<le> length s" by (rule length_dropWhile_le)
    finally show ?thesis using Bytes rd' by simp
  next
    case (Failing e)
    with r show ?thesis by simp
  qed
  show ?thesis
    by (relation "measure (\<lambda>(nd, rd, b, found_params). unread rd)")
      (auto split: if_splits dest: consumes)
qed

declare scan_lines.simps [simp del]

definition IncompleteReport :: error where
  "IncompleteReport = New ''Unable to locate runtime and/or uncertainty!''"

definition get_benchmark_results ::
  "extern \<Rightarrow> Configuration \<Rightarrow> nat \<Rightarrow> world \<Rightarrow> error option \<times> world" where
  "get_benchmark_results X cfg benchmark w =
     (let results_file_path = path [Stats cfg, Name (heap w benchmark) @ ''.txt'']
      in case os_Open (files w) results_file_path of
           Inl err \<Rightarrow> (Some err, w)
         | Inr file \<Rightarrow>
             (case scan_lines (nd_table X) (NewReader file) (heap w benchmark) 0 of
                (Some err, b, found_params) \<Rightarrow> (Some err, w\<lparr>heap := (heap w)(benchmark := b)\<rparr>)
              | (None, b, found_params) \<Rightarrow>
                  (if found_params \<noteq> 2 then Some IncompleteReport else None,
                   w\<lparr>heap := (heap w)(benchmark := b)\<rparr>)))"

text \<open>
  \<^verbatim>\<open>make_directories\<close>: each name is looked for among the entries of the working
  directory and made with mode \<^verbatim>\<open>0777\<close> (511) when no entry has that name.
\<close>

definition make_if_needed :: "string \<Rightarrow> world \<Rightarrow> error option \<times> world" where
  "make_if_needed name w =
     (case directory_contains_file name ''.'' (files w) of
        Inl err \<Rightarrow> (Some err, w)
      | Inr exists \<Rightarrow>
          if \<not> exists
          then (case os_Mkdir (files w) (umask w) name 511 of
                  (err, fs') \<Rightarrow> (err, w\<lparr>files := fs'\<rparr>))
          else (None, w))"

fun make_directories :: "string list \<Rightarrow> world \<Rightarrow> error option \<times> world" where
  "make_directories [] w = (None, w)"
| "make_directories (d # ds) w =
     (case make_if_needed d w of
        (Some err, w') \<Rightarrow> (Some err, w')
      | (None, w') \<Rightarrow> make_directories ds w')"

section \<open>External package functions\<close>

definition Init_Env :: "Configuration \<Rightarrow> world \<Rightarrow> error option \<times> world" where
  "Init_Env cfg w = make_directories [Stats cfg, Bin cfg] w"

fun create_benchmarks ::
  "Configuration \<Rightarrow> FileInfo list \<Rightarrow> nat list \<Rightarrow> world \<Rightarrow> nat list \<times> world" where
  "create_benchmarks cfg [] benchmarks w = (benchmarks, w)"
| "create_benchmarks cfg (file # fl) benchmarks w =
     (if \<not> IsDir file then create_benchmarks cfg fl benchmarks w
      else (let n = fname file;
                b = \<lparr>Name = n, Path = path [Src cfg, n], Runtime = Finite 0,
                     Uncertainty = Finite 0\<rparr>
            in case new_Benchmark b w of
                 (a, w') \<Rightarrow> create_benchmarks cfg fl (benchmarks @ [a]) w'))"

definition Init_Benchmarks :: "Configuration \<Rightarrow> world \<Rightarrow> nat list \<times> error option \<times> world" where
  "Init_Benchmarks cfg w =
     (case ReadDir (files w) (Src cfg) of
        Inl err \<Rightarrow> ([], Some err, w)
      | Inr fl \<Rightarrow>
          (case create_benchmarks cfg fl [] w of
             (benchmarks, w') \<Rightarrow> (benchmarks, None, w')))"

fun unevaluated_loop ::
  "extern \<Rightarrow> Configuration \<Rightarrow> nat list \<Rightarrow> nat list \<Rightarrow> world \<Rightarrow>
     nat list \<times> error option \<times> world" where
  "unevaluated_loop X cfg [] unevaluated_benchmarks w = (unevaluated_benchmarks, None, w)"
| "unevaluated_loop X cfg (b # bs) unevaluated_benchmarks w =
     (let results_file_name = Name (heap w b) @ ''.txt''
      in case directory_contains_file results_file_name (Stats cfg) (files w) of
           Inl err \<Rightarrow>
             (unevaluated_benchmarks,
              Some (New (''Problem opening results directory: '' @ Error err)), w)
         | Inr exists_file \<Rightarrow>
             if \<not> exists_file
             then unevaluated_loop X cfg bs (unevaluated_benchmarks @ [b]) w
             else (case get_benchmark_results X cfg b w of
                     (Some err, w') \<Rightarrow>
                       (unevaluated_benchmarks,
                        Some (New (''Unable to read results: '' @ Error err)), w')
                   | (None, w') \<Rightarrow> unevaluated_loop X cfg bs unevaluated_benchmarks w'))"

definition Get_Unevaluated_Benchmarks ::
  "extern \<Rightarrow> Configuration \<Rightarrow> nat list \<Rightarrow> world \<Rightarrow> nat list \<times> error option \<times> world" where
  "Get_Unevaluated_Benchmarks X cfg benchmarks w = unevaluated_loop X cfg benchmarks [] w"

definition Evaluate_Benchmark ::
  "extern \<Rightarrow> string \<Rightarrow> Configuration \<Rightarrow> int \<Rightarrow> nat \<Rightarrow> world \<Rightarrow> error option \<times> world" where
  \<open>Evaluate_Benchmark X compiler cfg repeats benchmark w =
     (case directory_contains_file (Name (heap w benchmark)) (Bin cfg) (files w) of
        Inl err \<Rightarrow> (Some (New (''Unable to search "'' @ Bin cfg @ ''": '' @ Error err)), w)
      | Inr was_compiled \<Rightarrow>
          (case (if \<not> was_compiled
                 then compile_benchmark X cfg benchmark compiler
                        (Println (''Compiling benchmark "'' @ Name (heap w benchmark) @ ''"...'') w)
                 else (None, w)) of
             (Some err, w1) \<Rightarrow> (Some (New (''Problem compiling benchmark: '' @ Error err)), w1)
           | (None, w1) \<Rightarrow>
               (let w2 = Println ''- Success'' w1;
                    w3 = Println (''Evaluating benchmark "'' @ Name (heap w2 benchmark) @ ''"...'') w2
                in case evaluate_benchmark X benchmark cfg repeats w3 of
                     (Some err, w4) \<Rightarrow>
                       (Some (New (''Problem evaluating benchmark: '' @ Error err)), w4)
                   | (None, w4) \<Rightarrow>
                       (let w5 = Println ''- Success'' w4
                        in case get_benchmark_results X cfg benchmark w5 of
                             (Some err, w6) \<Rightarrow>
                               (Some (New (''Unable to read results for ''
                                  @ Name (heap w6 benchmark) @ '': '' @ Error err)), w6)
                           | (None, w6) \<Rightarrow> (None, w6)))))\<close>

text \<open>
  \<^verbatim>\<open>main\<close>: \<^verbatim>\<open>log.Fatal\<close> ends the process with the message; otherwise one line is
  printed for each benchmark.
\<close>

datatype exit = Fatal string | Returned

fun evaluate_all ::
  "extern \<Rightarrow> Configuration \<Rightarrow> nat list \<Rightarrow> world \<Rightarrow> error option \<times> world" where
  "evaluate_all X cfg [] w = (None, w)"
| "evaluate_all X cfg (b # bs) w =
     (case Evaluate_Benchmark X ''cc'' cfg 10 b w of
        (Some err, w') \<Rightarrow> (Some err, w')
      | (None, w') \<Rightarrow> evaluate_all X cfg bs w')"

definition result_line :: "extern \<Rightarrow> Benchmark \<Rightarrow> string" where
  "result_line X b =
     replicate (16 - length (Name b)) CHR '' '' @ Name b @ replicate 3 (CHR 0x09)
       @ format_f2 X (Runtime b) @ '' ns'' @ replicate 3 (CHR 0x09)
       @ format_f2 X (Uncertainty b) @ ''%''"

fun print_benchmarks :: "extern \<Rightarrow> nat list \<Rightarrow> world \<Rightarrow> world" where
  "print_benchmarks X [] w = w"
| "print_benchmarks X (b # bs) w = print_benchmarks X bs (Println (result_line X (heap w b)) w)"

definition main_cfg :: Configuration where
  "main_cfg = \<lparr>Src = ''tacle-bench/bench/sequential'', Stats = ''stats'', Bin = ''bin''\<rparr>"

definition main :: "extern \<Rightarrow> world \<Rightarrow> exit \<times> world" where
  "main X w =
     (let cfg = main_cfg
      in case Init_Env cfg w of
           (Some err, w1) \<Rightarrow> (Fatal (Error err), w1)
         | (None, w1) \<Rightarrow>
             (case Init_Benchmarks cfg w1 of
                (benchmarks, Some err, w2) \<Rightarrow> (Fatal (Error err), w2)
              | (benchmarks, None, w2) \<Rightarrow>
                  (case Get_Unevaluated_Benchmarks X cfg benchmarks w2 of
                     (unevaluated, Some err, w3) \<Rightarrow> (Fatal (Error err), w3)
                   | (unevaluated, None, w3) \<Rightarrow>
                       (case evaluate_all X cfg unevaluated w3 of
                          (Some err, w4) \<Rightarrow> (Fatal (Error err), w4)
                        | (None, w4) \<Rightarrow> (Returned, print_benchmarks X benchmarks w4)))))"

section \<open>The report as a list of lines\<close>

text \<open>
  The lines of a text as \<^verbatim>\<open>ReadBytes('\n')\<close> yields them one after the other: each
  line with its newline, and last what follows the last newline (nothing, when the text
  ends with a newline). \<open>scan_list\<close> is the loop of \<^verbatim>\<open>get_benchmark_results\<close> told
  over that list; \<open>scan_lines_Bytes\<close> proves that the loop over the reader computes
  the same.
\<close>

fun chunks :: "rune list \<Rightarrow> rune list list" where
  "chunks [] = [[]]"
| "chunks (c # cs) =
     (if c = 10 then [c] # chunks cs
      else (case chunks cs of [] \<Rightarrow> [[c]] | l # ls \<Rightarrow> (c # l) # ls))"

fun scan_list :: "(rune \<Rightarrow> bool) \<Rightarrow> rune list list \<Rightarrow> Benchmark \<Rightarrow> nat \<Rightarrow> Benchmark \<times> nat" where
  "scan_list nd [] b found_params = (b, found_params)"
| "scan_list nd (line # ls) b found_params =
     (case match_exp line match_duration_exp of
        Inl no_match \<Rightarrow> scan_list nd ls b found_params
      | Inr m \<Rightarrow>
          (case match_exp line match_uncertainty_exp of
             Inl no_match \<Rightarrow> scan_list nd ls (b\<lparr>Runtime := get_float nd m\<rparr>) (found_params + 1)
           | Inr m' \<Rightarrow>
               (b\<lparr>Runtime := get_float nd m, Uncertainty := get_float nd m'\<rparr>,
                found_params + 2)))"

text \<open>
  What a run of the loop can do to a benchmark: write the runtime, the uncertainty, both
  or neither.
\<close>

definition write_fields ::
  "float64 option \<Rightarrow> float64 option \<Rightarrow> Benchmark \<Rightarrow> Benchmark" where
  "write_fields ro uo b =
     b\<lparr>Runtime := (case ro of None \<Rightarrow> Runtime b | Some x \<Rightarrow> x),
       Uncertainty := (case uo of None \<Rightarrow> Uncertainty b | Some y \<Rightarrow> y)\<rparr>"

section \<open>Example worlds\<close>

text \<open>
  A configuration, two benchmarks on the heap and a directory tree with a source root
  (the benchmark \<^verbatim>\<open>add\<close> with one C file, the directory \<^verbatim>\<open>docs\<close> without any, and
  a plain file), a results directory and a binaries directory that holds a
  sub-directory named \<^verbatim>\<open>docs\<close>.
\<close>

definition example_cfg :: Configuration where
  "example_cfg = \<lparr>Src = ''src'', Stats = ''stats'', Bin = ''bin''\<rparr>"

definition example_heap :: "nat \<Rightarrow> Benchmark" where
  "example_heap a =
     (if a = 0
      then \<lparr>Name = ''add'', Path = ''src/add'', Runtime = Finite 0,
              Uncertainty = Finite 0\<rparr>
      else \<lparr>Name = ''docs'', Path = ''src/docs'', Runtime = Finite 0,
              Uncertainty = Finite 0\<rparr>)"

definition example_world :: "node \<Rightarrow> world" where
  "example_world fs =
     \<lparr>files = fs, umask = 18, heap = example_heap, next_addr = 2, spawned = [], stdout = []\<rparr>"

definition example_extern :: extern where
  "example_extern =
     \<lparr>nd_table = (\<lambda>r. False), run_cmd = (\<lambda>c fs. (None, fs)), format_f2 = (\<lambda>x. [])\<rparr>"

definition source_tree :: "(string \<times> node) list" where
  "source_tree =
     [(''add'', Dir 493 [(''add.c'', File []), (''README'', File [])]),
      (''docs'', Dir 493 [(''README'', File []), (''old.c'', Dir 493 [])]),
      (''notes.txt'', File [])]"

definition example_tree :: "(string \<times> node) list \<Rightarrow> node" where
  "example_tree reports =
     Dir 493 [(''src'', Dir 493 source_tree), (''stats'', Dir 493 reports),
              (''bin'', Dir 493 [(''docs'', Dir 493 [])])]"

text \<open>
  Reports for the benchmark \<^verbatim>\<open>add\<close>: the duration and the uncertainty on two lines,
  in either order; two lines with a duration and no uncertainty anywhere; one line with
  a duration only; the line of the measurement tool, with both; a duration of sixteen
  digits; and a line whose uncertainty holds the Arabic-Indic digit three (U+0663).
\<close>

definition report_world :: "rune list \<Rightarrow> world" where
  "report_world content = example_world (example_tree [(''add.txt'', File content)])"

definition report_duration_first :: "rune list" where
  "report_duration_first = runes ''1,234,567 ns\<newline>3.45%\<newline>''"

definition report_uncertainty_first :: "rune list" where
  "report_uncertainty_first = runes ''3.45%\<newline>1,234,567 ns\<newline>''"

definition report_two_durations :: "rune list" where
  "report_two_durations = runes ''1 ns\<newline>2 ns\<newline>''"

definition report_duration_only :: "rune list" where
  "report_duration_only = runes ''5 ns\<newline>''"

text \<open>The same world with measurements of an earlier run on the benchmark \<^verbatim>\<open>add\<close>.\<close>

definition stale_world :: "rune list \<Rightarrow> world" where
  "stale_world content =
     (report_world content)
       \<lparr>heap := example_heap
          (0 := \<lparr>Name = ''add'', Path = ''src/add'', Runtime = Finite 7,
                  Uncertainty = Finite 9\<rparr>)\<rparr>"

definition report_perf :: "rune list" where
  "report_perf = runes ''   1,234,567 ns   duration_time   ( +-  3.45% )\<newline>''"

text \<open>
  Working directories for \<^verbatim>\<open>Init_Env\<close>: an empty one, an empty one that is not
  writable (mode \<^verbatim>\<open>0555\<close>), an empty one that cannot be listed (mode \<^verbatim>\<open>0333\<close>),
  one where \<^verbatim>\<open>stats\<close> is a plain file and one that holds a directory \<^verbatim>\<open>out\<close>; and
  a configuration whose binaries directory is the path \<^verbatim>\<open>out/bin\<close>.
\<close>

definition fresh_world :: world where
  "fresh_world = example_world (Dir 493 [])"

definition readonly_world :: world where
  "readonly_world = example_world (Dir 365 [])"

definition unlistable_world :: world where
  "unlistable_world = example_world (Dir 219 [])"

definition out_world :: world where
  "out_world = example_world (Dir 493 [(''out'', Dir 493 [])])"

definition nested_cfg :: Configuration where
  "nested_cfg = \<lparr>Src = ''src'', Stats = ''stats'', Bin = ''out/bin''\<rparr>"

definition plain_stats_world :: world where
  "plain_stats_world = example_world (Dir 493 [(''stats'', File [])])"

definition report_long_duration :: "rune list" where
  "report_long_duration = runes ''9007199254740993 ns''"

definition report_arabic_indic :: "rune list" where
  "report_arabic_indic = runes ''5 ns 1'' @ [1635] @ runes ''5%''"

section \<open>Numbers that a \<^verbatim>\<open>float64\<close> holds exactly\<close>

lemma ilog2_bounds: "0 < n \<Longrightarrow> 2 ^ ilog2 n \<le> n \<and> n < 2 ^ Suc (ilog2 n)"
proof (induction n rule: ilog2.induct)
  case (1 n)
  show ?case
  proof (cases "n < 2")
    case True
    with "1.prems" have "n = 1" by simp
    then show ?thesis by (simp add: ilog2.simps)
  next
    case False
    then have pos: "0 < n div 2" by simp
    from "1.IH" [OF False pos]
    have lo: "2 ^ ilog2 (n div 2) \<le> n div 2" and hi: "n div 2 < 2 ^ Suc (ilog2 (n div 2))"
      by simp_all
    have eq: "ilog2 n = Suc (ilog2 (n div 2))" using False by (subst ilog2.simps) simp
    from lo have "2 * 2 ^ ilog2 (n div 2) \<le> 2 * (n div 2)" by simp
    also have "\<dots> \<le> n" by simp
    finally have a: "2 ^ ilog2 n \<le> n" by (simp add: eq)
    from hi have "Suc (n div 2) \<le> 2 ^ Suc (ilog2 (n div 2))" by simp
    then have "2 * Suc (n div 2) \<le> 2 * 2 ^ Suc (ilog2 (n div 2))" by simp
    moreover have "n < 2 * Suc (n div 2)" by simp
    ultimately have b: "n < 2 ^ Suc (ilog2 n)" by (simp add: eq)
    from a b show ?thesis by simp
  qed
qed

lemma ilog2_less: "0 < n \<Longrightarrow> n < 2 ^ k \<Longrightarrow> ilog2 n < k"
proof -
  assume n: "0 < n" and k: "n < 2 ^ k"
  from ilog2_bounds [OF n] have "(2::nat) ^ ilog2 n \<le> n" by simp
  also note k
  finally have "(2::nat) ^ ilog2 n < 2 ^ k" .
  then show ?thesis by (simp add: power_strict_increasing_iff)
qed

lemma round_even_int: "round_even (of_int z) = z"
  by (simp add: round_even_def)

lemma round64_exact:
  assumes n: "0 < n" and f: "n = m * 2 ^ j" and m: "m < 2 ^ 53" and r: "n < 2 ^ 1024"
  shows "round64 (of_nat n) = Finite (of_nat n)"
proof -
  let ?q = "of_nat n :: rat"
  define e where "e = ilog2 n"
  have q1: "1 \<le> ?q" using n by simp
  have ex: "expo ?q = int e" using q1 by (simp add: expo_def e_def)
  have "n < 2 ^ (53 + j)"
  proof -
    have "m * 2 ^ j < 2 ^ 53 * 2 ^ j" using m by simp
    then show ?thesis by (simp add: f power_add)
  qed
  from ilog2_less [OF n this] have ej: "e < 53 + j" by (simp add: e_def)
  define p where "p = int e - 52"
  have pm: "max (expo ?q - 52) (- 1074) = p" by (simp add: ex p_def)
  have "\<exists>z. ?q / pow2 p = of_int z \<and> of_int z * pow2 p = ?q"
  proof (cases "e \<le> 52")
    case True
    then have pw: "pow2 p = 1 / 2 ^ (52 - e)"
      by (cases "e = 52") (auto simp: pow2_def p_def nat_diff_distrib)
    have "?q / pow2 p = of_int (int (n * 2 ^ (52 - e)))" by (simp add: pw)
    moreover have "of_int (int (n * 2 ^ (52 - e))) * pow2 p = ?q" by (simp add: pw)
    ultimately show ?thesis by blast
  next
    case False
    define k where "k = e - 52"
    from False have pk: "p = int k" and kpos: "0 < k" by (simp_all add: p_def k_def)
    from ej False have kj: "k \<le> j" by (simp add: k_def)
    have pw: "pow2 p = 2 ^ k" by (simp add: pow2_def pk)
    have nk: "n = (m * 2 ^ (j - k)) * 2 ^ k"
      using kj by (simp add: f power_add [symmetric])
    have "?q = of_nat (m * 2 ^ (j - k)) * 2 ^ k"
      by (subst nk) (simp only: of_nat_mult of_nat_power of_nat_numeral)
    then have "?q / pow2 p = of_int (int (m * 2 ^ (j - k)))"
      and "of_int (int (m * 2 ^ (j - k))) * pow2 p = ?q"
      by (simp_all add: pw)
    then show ?thesis by blast
  qed
  then obtain z where z: "?q / pow2 p = of_int z" "of_int z * pow2 p = ?q" by blast
  have v: "of_int (round_even (?q / pow2 p)) * pow2 p = ?q"
    by (simp only: z round_even_int)
  have lim: "\<not> pow2 1024 \<le> ?q"
  proof -
    have "?q < of_nat (2 ^ 1024)" using r by (simp only: of_nat_less_iff)
    then show ?thesis by (simp add: pow2_def)
  qed
  have "round_pos ?q = Finite ?q"
    unfolding round_pos_def Let_def pm v using lim by simp
  with n show ?thesis by (simp add: round64_def)
qed

lemma round64_nat: "n \<le> 2 ^ 53 \<Longrightarrow> round64 (of_nat n) = Finite (of_nat n)"
proof (cases "n = 0")
  case True
  then show ?thesis by (simp add: round64_def)
next
  case False
  assume le: "n \<le> 2 ^ 53"
  show ?thesis
  proof (cases "n = 2 ^ 53")
    case True
    have "round64 (of_nat n) = Finite (of_nat n)"
      by (rule round64_exact [of n 1 53]) (simp_all add: True)
    then show ?thesis .
  next
    case ne: False
    with le have "n < 2 ^ 53" by simp
    then show ?thesis using False
      by (intro round64_exact [of n n 0]) simp_all
  qed
qed

lemma round64_numeral:
  "(numeral w :: nat) \<le> 2 ^ 53 \<Longrightarrow> round64 (numeral w) = Finite (numeral w)"
  using round64_nat [of "numeral w"] by simp

lemma round64_0: "round64 0 = Finite 0"
  by (simp add: round64_def)

lemma round64_1: "round64 1 = Finite 1"
  using round64_nat [of 1] by simp

lemma round64_pow10: "k \<le> 22 \<Longrightarrow> round64 (10 ^ k) = Finite (10 ^ k)"
proof -
  assume k: "k \<le> 22"
  have "(5::nat) ^ k \<le> 5 ^ 22" using k by (intro power_increasing) simp_all
  also have "\<dots> < 2 ^ 53" by simp
  finally have m: "(5::nat) ^ k < 2 ^ 53" .
  have f: "(10::nat) ^ k = 5 ^ k * 2 ^ k" by (simp add: power_mult_distrib [symmetric])
  have "(10::nat) ^ k \<le> 10 ^ 22" using k by (intro power_increasing) simp_all
  also have "\<dots> < 2 ^ 1024" by simp
  finally have r: "(10::nat) ^ k < 2 ^ 1024" .
  from round64_exact [OF _ f m r] show ?thesis by simp
qed

section \<open>Properties of the numeric conversion\<close>

lemma filter_digits_found:
  "filter_digits nd s (acc, True, k) =
     (acc @ filter (IsDigit nd) s, True, k + length (filter (IsDigit nd) s))"
  by (induction s arbitrary: acc k) simp_all

lemma filter_digits_spec:
  "filter_digits nd s (acc, False, 0) =
     (acc @ filter (IsDigit nd) s, (\<exists>r\<in>set s. r = 46 \<and> \<not> IsDigit nd r) ,
      length (filter (IsDigit nd) (dropWhile (\<lambda>r. r \<noteq> 46) s)))"
proof (induction s arbitrary: acc)
  case Nil
  show ?case by simp
next
  case (Cons r rs)
  have dot: "\<not> IsDigit nd 46" by (simp add: IsDigit_def)
  show ?case
  proof (cases "r = 46")
    case True
    with dot show ?thesis by (simp add: filter_digits_found)
  next
    case False
    with Cons show ?thesis by simp
  qed
qed

lemma get_float_unfold:
  "get_float nd s =
     f_div (assemble (spec_digits nd s) (Finite 0)) (Pow10 (spec_decimal_offset nd s))"
  by (simp add: get_float_def spec_digits_def spec_decimal_offset_def filter_digits_spec)

lemma IsDigit_comma: "\<not> IsDigit nd 44"
  by (simp add: IsDigit_def)

lemma filter_digits_no_comma:
  "filter (\<lambda>r. r \<noteq> 44 \<and> IsDigit nd r) t = filter (IsDigit nd) t"
  by (rule filter_cong) (auto simp: IsDigit_comma)

lemma filter_digits_after_dot_no_comma:
  "filter (IsDigit nd) (dropWhile (\<lambda>r. r \<noteq> 46) (filter (\<lambda>r. r \<noteq> 44) s))
     = filter (IsDigit nd) (dropWhile (\<lambda>r. r \<noteq> 46) s)"
  by (induction s) (simp_all add: filter_digits_no_comma IsDigit_comma)

lemma get_float_strip_commas: "get_float nd (strip_commas s) = get_float nd s"
  by (simp add: get_float_unfold spec_digits_def spec_decimal_offset_def strip_commas_def
      filter_digits_no_comma filter_digits_after_dot_no_comma)

lemma Pow10_exact: "k \<le> 22 \<Longrightarrow> Pow10 k = Finite (10 ^ k)"
  by (simp add: Pow10_def pow10tab_def pow10postab32_def round64_pow10 round64_1)

lemma get_float_no_digits:
  assumes "\<forall>r\<in>set s. \<not> IsDigit nd r"
  shows "get_float nd s = Finite 0"
proof -
  from assms have "filter (IsDigit nd) s = []" by (simp add: filter_empty_conv)
  moreover from assms
  have "filter (IsDigit nd) (dropWhile (\<lambda>r. r \<noteq> 46) s) = []"
    by (auto simp: filter_empty_conv dest: set_dropWhileD)
  ultimately show ?thesis
    by (simp add: get_float_unfold spec_digits_def spec_decimal_offset_def Pow10_exact
        round64_0)
qed

lemma round64_int: "0 \<le> a \<Longrightarrow> a \<le> 2 ^ 53 \<Longrightarrow> round64 (of_int a) = Finite (of_int a)"
proof -
  assume a: "0 \<le> a" "a \<le> 2 ^ 53"
  then have "nat a \<le> 2 ^ 53" by (simp add: nat_le_iff)
  from round64_nat [OF this] a(1) show ?thesis by simp
qed

lemma decimal_grows:
  "\<forall>d\<in>set ds. 48 \<le> d \<and> d \<le> 57 \<Longrightarrow> 0 \<le> a \<Longrightarrow>
     (a::int) \<le> foldl (\<lambda>v d. v * 10 + (d - 48)) a ds"
proof (induction ds arbitrary: a)
  case Nil
  show ?case by simp
next
  case (Cons d ds)
  then have d: "0 \<le> d - 48" by simp
  with Cons.prems(2) have step: "a \<le> a * 10 + (d - 48)" "0 \<le> a * 10 + (d - 48)" by simp_all
  from Cons.prems(1) have "\<forall>d\<in>set ds. 48 \<le> d \<and> d \<le> 57" by simp
  from Cons.IH [OF this step(2)]
  have "a * 10 + (d - 48) \<le> foldl (\<lambda>v d. v * 10 + (d - 48)) (a * 10 + (d - 48)) ds" .
  with step(1) have "a \<le> foldl (\<lambda>v d. v * 10 + (d - 48)) (a * 10 + (d - 48)) ds"
    by (rule order_trans)
  then show ?case by (simp only: foldl_Cons)
qed

text \<open>
  While the decimal integer of the digits read so far stays within \<open>2 ^ 53\<close>, the
  multiplications and additions of the second loop round nothing.
\<close>

lemma assemble_exact:
  "\<forall>d\<in>set ds. 48 \<le> d \<and> d \<le> 57 \<Longrightarrow> 0 \<le> a \<Longrightarrow>
     foldl (\<lambda>v d. v * 10 + (d - 48)) a ds \<le> 2 ^ 53 \<Longrightarrow>
     assemble ds (Finite (of_int a)) = Finite (of_int (foldl (\<lambda>v d. v * 10 + (d - 48)) a ds))"
proof (induction ds arbitrary: a)
  case Nil
  show ?case by simp
next
  case (Cons d ds)
  let ?a' = "a * 10 + (d - 48)"
  from Cons.prems(1) have d: "48 \<le> d" "d \<le> 57" and rest: "\<forall>d\<in>set ds. 48 \<le> d \<and> d \<le> 57"
    by simp_all
  from d have byte: "digit_byte d = d - 48" by (simp add: digit_byte_def)
  from d Cons.prems(2) have pos: "0 \<le> ?a'" by simp
  from decimal_grows [OF rest pos] Cons.prems(3) have le: "?a' \<le> 2 ^ 53" by simp
  from d Cons.prems(2) le have le10: "a * 10 \<le> 2 ^ 53" "0 \<le> a * 10" by simp_all
  have "f_mul (Finite (of_int a)) (Finite 10) = round64 (of_int (a * 10))" by simp
  also have "\<dots> = Finite (of_int (a * 10))" by (rule round64_int [OF le10(2) le10(1)])
  finally have m: "f_mul (Finite (of_int a)) (Finite 10) = Finite (of_int (a * 10))" .
  have "f_add (Finite (of_int (a * 10))) (Finite (of_int (d - 48))) = round64 (of_int ?a')"
    by simp
  also have "\<dots> = Finite (of_int ?a')" by (rule round64_int [OF pos le])
  finally have s: "f_add (Finite (of_int (a * 10))) (Finite (of_int (d - 48)))
      = Finite (of_int ?a')" .
  from Cons.prems(3) have "foldl (\<lambda>v d. v * 10 + (d - 48)) ?a' ds \<le> 2 ^ 53" by simp
  from Cons.IH [OF rest pos this]
  have ih: "assemble ds (Finite (of_int ?a'))
      = Finite (of_int (foldl (\<lambda>v d. v * 10 + (d - 48)) ?a' ds))" .
  have "assemble (d # ds) (Finite (of_int a))
      = assemble ds (f_add (f_mul (Finite (of_int a)) (Finite 10)) (Finite (of_int (d - 48))))"
    by (simp only: assemble.simps byte)
  also have "\<dots> = assemble ds (Finite (of_int ?a'))" by (simp only: m s)
  also note ih
  finally show ?case by (simp only: foldl_Cons)
qed

lemma get_float_exact:
  assumes ascii: "\<forall>r\<in>set s. IsDigit nd r \<longrightarrow> r \<le> 255"
    and small: "spec_integer nd s \<le> 2 ^ 53"
  shows "get_float nd s
     = f_div (Finite (of_int (spec_integer nd s))) (Pow10 (spec_decimal_offset nd s))"
proof -
  have digits: "\<forall>d\<in>set (spec_digits nd s). 48 \<le> d \<and> d \<le> 57"
  proof
    fix d assume "d \<in> set (spec_digits nd s)"
    then have "IsDigit nd d" "d \<in> set s" by (simp_all add: spec_digits_def)
    with ascii have "IsDigit nd d" "d \<le> 255" by simp_all
    then show "48 \<le> d \<and> d \<le> 57" by (simp add: IsDigit_def)
  qed
  from small have "foldl (\<lambda>v d. v * 10 + (d - 48)) 0 (spec_digits nd s) \<le> 2 ^ 53"
    by (simp add: spec_integer_def)
  from assemble_exact [OF digits _ this]
  have "assemble (spec_digits nd s) (Finite 0) = Finite (of_int (spec_integer nd s))"
    by (simp add: spec_integer_def)
  then show ?thesis by (simp add: get_float_unfold)
qed

lemma get_float_rounded_once:
  assumes "\<forall>r\<in>set s. IsDigit nd r \<longrightarrow> r \<le> 255" and "spec_integer nd s \<le> 2 ^ 53"
    and "spec_decimal_offset nd s \<le> 22"
  shows "get_float nd s = round64 (spec_float nd s)"
  by (simp add: get_float_exact [OF assms(1,2)] Pow10_exact [OF assms(3)] spec_float_def)

lemma floor_rat_numeral: "\<lfloor>(numeral a / numeral b :: rat)\<rfloor> = numeral a div numeral b"
  using floor_divide_of_int_eq [of "numeral a" "numeral b", where ?'a = rat] by simp

lemma ceiling_rat_numeral:
  "\<lceil>(numeral a / numeral b :: rat)\<rceil> = - (- numeral a div numeral b)"
  using ceiling_divide_eq_div [of "numeral a" "numeral b", where ?'a = rat] by simp

lemmas r64_eval =
  round64_def round_pos_def round_even_def expo_def pow2_def Let_def ilog2.simps
  floor_rat_numeral ceiling_rat_numeral

lemmas float_eval =
  get_float_def IsDigit_def digit_byte_def Pow10_def pow10tab_def pow10postab32_def
  round64_numeral round64_0 round64_1

lemma round64_half: "round64 (1 / 2) = Finite (1 / 2)"
  by (simp add: r64_eval)

lemma round64_above_2_53: "round64 9007199254740993 = Finite 9007199254740992"
  by (simp add: r64_eval)

text \<open>
  C3, as amended. On a string whose digit characters are the digits \<^verbatim>\<open>'0'\<close> to
  \<^verbatim>\<open>'9'\<close> and whose digits, read as one decimal integer, do not exceed \<open>2 ^ 53\<close>, the
  routine builds that integer without rounding, and its result is the \<^verbatim>\<open>float64\<close>
  quotient of the integer by \<^verbatim>\<open>math.Pow10\<close> of the number of digits after the first
  decimal point: with at most 22 such digits, the exact quotient rounded once. On every
  string a comma changes nothing, \<^verbatim>\<open>"0.5%"\<close> gives 0.5, \<^verbatim>\<open>"12,000 ns"\<close> gives 12000,
  and a string without digits gives 0.
\<close>

theorem get_float_conversion:
  "((\<forall>r\<in>set s. IsDigit nd r \<longrightarrow> r \<le> 255) \<longrightarrow> spec_integer nd s \<le> 2 ^ 53 \<longrightarrow>
      get_float nd s
        = f_div (Finite (of_int (spec_integer nd s))) (Pow10 (spec_decimal_offset nd s))
      \<and> (spec_decimal_offset nd s \<le> 22 \<longrightarrow> get_float nd s = round64 (spec_float nd s)))
   \<and> get_float nd (strip_commas s) = get_float nd s
   \<and> get_float nd (runes ''0.5%'') = Finite (1 / 2)
   \<and> get_float nd (runes ''12,000 ns'') = Finite 12000
   \<and> ((\<forall>r\<in>set s. \<not> IsDigit nd r) \<longrightarrow> get_float nd s = Finite 0)"
proof -
  have a: "(\<forall>r\<in>set s. IsDigit nd r \<longrightarrow> r \<le> 255) \<longrightarrow> spec_integer nd s \<le> 2 ^ 53 \<longrightarrow>
      get_float nd s
        = f_div (Finite (of_int (spec_integer nd s))) (Pow10 (spec_decimal_offset nd s))
      \<and> (spec_decimal_offset nd s \<le> 22 \<longrightarrow> get_float nd s = round64 (spec_float nd s))"
    using get_float_exact [of s nd] get_float_rounded_once [of s nd] by blast
  have b: "get_float nd (strip_commas s) = get_float nd s"
    by (rule get_float_strip_commas)
  have c: "get_float nd (runes ''0.5%'') = Finite (1 / 2)"
    by (simp add: float_eval runes_def round64_half)
  have d: "get_float nd (runes ''12,000 ns'') = Finite 12000"
    by (simp add: float_eval runes_def)
  have e: "(\<forall>r\<in>set s. \<not> IsDigit nd r) \<longrightarrow> get_float nd s = Finite 0"
    using get_float_no_digits [of s nd] by blast
  from a b c d e show ?thesis by blast
qed

theorem get_float_conversion_witness:
  "filter (\<lambda>r. IsDigit arabic_indic r \<and> 255 < r) (runes ''1,5.25'') = []
   \<and> spec_integer arabic_indic (runes ''1,5.25'') = 1525
   \<and> spec_decimal_offset arabic_indic (runes ''1,5.25'') = 2
   \<and> get_float arabic_indic (runes ''1,5.25'') = round64 (1525 / 100)
   \<and> filter (IsDigit arabic_indic) (runes ''ns %'') = []
   \<and> get_float arabic_indic (runes ''ns %'') = Finite 0"
proof -
  have h1: "\<forall>r\<in>set (runes ''1,5.25''). IsDigit arabic_indic r \<longrightarrow> r \<le> 255"
    by (simp add: runes_def IsDigit_def arabic_indic_def)
  have f1: "filter (\<lambda>r. IsDigit arabic_indic r \<and> 255 < r) (runes ''1,5.25'') = []"
    by (simp add: runes_def IsDigit_def arabic_indic_def)
  have n: "spec_integer arabic_indic (runes ''1,5.25'') = 1525"
    by (simp add: spec_integer_def spec_digits_def runes_def IsDigit_def)
  have k: "spec_decimal_offset arabic_indic (runes ''1,5.25'') = 2"
    by (simp add: spec_decimal_offset_def runes_def IsDigit_def)
  have h2: "spec_integer arabic_indic (runes ''1,5.25'') \<le> 2 ^ 53" by (simp add: n)
  have h3: "\<forall>r\<in>set (runes ''ns %''). \<not> IsDigit arabic_indic r"
    by (simp add: runes_def IsDigit_def)
  then have f3: "filter (IsDigit arabic_indic) (runes ''ns %'') = []"
    by (simp add: filter_empty_conv)
  have k22: "spec_decimal_offset arabic_indic (runes ''1,5.25'') \<le> 22" by (simp add: k)
  have sf: "spec_float arabic_indic (runes ''1,5.25'') = 1525 / 100"
    by (simp add: spec_float_def n k)
  from get_float_conversion [of "runes ''1,5.25''" arabic_indic] h1 h2 k22
  have "get_float arabic_indic (runes ''1,5.25'')
      = round64 (spec_float arabic_indic (runes ''1,5.25''))" by blast
  then have g: "get_float arabic_indic (runes ''1,5.25'') = round64 (1525 / 100)"
    by (simp only: sf)
  from get_float_conversion [of "runes ''ns %''" arabic_indic] h3
  have z: "get_float arabic_indic (runes ''ns %'') = Finite 0" by blast
  from f1 n k g f3 z show ?thesis by blast
qed

text \<open>
  C3 as it is stated fails on two matched substrings. In the line \<^verbatim>\<open>5 ns 1?5%\<close>, with
  the Arabic-Indic digit three for \<^verbatim>\<open>?\<close>, the wildcard of the uncertainty pattern
  takes that digit; the routine keeps it as a digit and adds the byte 51 for it: the
  digits one, three, five give 615. And the sixteen digits of \<open>2 ^ 53 + 1\<close> give
  \<open>2 ^ 53\<close>: the last addition is rounded.
\<close>

theorem get_float_conversion_counterexample:
  "match_exp report_arabic_indic match_uncertainty_exp = Inr [49, 1635, 53, 37]
   \<and> spec_digits arabic_indic [49, 1635, 53, 37] = [49, 1635, 53]
   \<and> get_float arabic_indic [49, 1635, 53, 37] = Finite 615
   \<and> match_exp report_long_duration match_duration_exp = Inr report_long_duration
   \<and> spec_float arabic_indic report_long_duration = 9007199254740993
   \<and> get_float arabic_indic report_long_duration = Finite 9007199254740992"
proof -
  have a: "match_exp report_arabic_indic match_uncertainty_exp = Inr [49, 1635, 53, 37]"
    by (simp add: report_arabic_indic_def match_exp_def match_uncertainty_exp_def rn_def
        runes_def)
  have b: "spec_digits arabic_indic [49, 1635, 53, 37] = [49, 1635, 53]"
    by (simp add: spec_digits_def IsDigit_def arabic_indic_def)
  have c: "get_float arabic_indic [49, 1635, 53, 37] = Finite 615"
    by (simp add: float_eval arabic_indic_def)
  have d: "match_exp report_long_duration match_duration_exp = Inr report_long_duration"
    by (simp add: report_long_duration_def match_exp_def match_duration_exp_def rn_def
        runes_def)
  have e: "spec_float arabic_indic report_long_duration = 9007199254740993"
    by (simp add: report_long_duration_def spec_float_def spec_integer_def spec_digits_def
        spec_decimal_offset_def runes_def IsDigit_def)
  have f: "get_float arabic_indic report_long_duration = Finite 9007199254740992"
    by (simp add: report_long_duration_def float_eval runes_def round64_above_2_53)
  from a b c d e f show ?thesis by blast
qed

section \<open>Compilation, measurement and discovery\<close>

lemma has_entry_iff: "has_entry name fl \<longleftrightarrow> name \<in> fname ` set fl"
  by (induction fl) auto

lemma files_with_suffix_filter:
  "files_with_suffix directory suffix fl bag =
     bag @ map (\<lambda>f. directory @ ''/'' @ fname f)
             (filter (\<lambda>f. \<not> IsDir f \<and> HasSuffix (fname f) suffix) fl)"
  by (induction fl arbitrary: bag) simp_all

text \<open>
  C5. When the listing of a benchmark's source directory has no plain file whose name
  ends in \<^verbatim>\<open>.c\<close> (whatever else it holds), no compile command is built: the compile
  step fails with the error \<open>NoSourceFiles\<close> and leaves the world as it was, so no
  process is started.
\<close>

theorem compile_without_sources_fails:
  assumes "ReadDir (files w) (Path (heap w benchmark)) = Inr fl"
    and "\<forall>f\<in>set fl. \<not> IsDir f \<longrightarrow> \<not> HasSuffix (fname f) ''.c''"
  shows "get_compile_command compiler (Name (heap w benchmark)) (Path (heap w benchmark))
           (Bin cfg) (files w) = Inl NoSourceFiles
         \<and> compile_benchmark X cfg benchmark compiler w = (Some NoSourceFiles, w)"
proof -
  from assms(2) have "filter (\<lambda>f. \<not> IsDir f \<and> HasSuffix (fname f) ''.c'') fl = []"
    by (auto simp: filter_empty_conv)
  then have "get_files_by_suffix (Path (heap w benchmark)) ''.c'' (files w) = Inr []"
    using assms(1) by (simp add: get_files_by_suffix_def files_with_suffix_filter)
  then have g: "get_compile_command compiler (Name (heap w benchmark)) (Path (heap w benchmark))
           (Bin cfg) (files w) = Inl NoSourceFiles"
    by (simp add: get_compile_command_def)
  then show ?thesis by (simp add: compile_benchmark_def)
qed

lemma example_src_docs:
  "ReadDir (example_tree []) ''src/docs'' = Inr [FileInfo ''README'' False, FileInfo ''old.c'' True]"
  by (simp add: ReadDir_def example_tree_def source_tree_def resolve_def)

theorem compile_without_sources_fails_witness:
  "ReadDir (files (example_world (example_tree []))) (Path (heap (example_world (example_tree [])) 1))
     = Inr [FileInfo ''README'' False, FileInfo ''old.c'' True]
   \<and> compile_benchmark example_extern example_cfg 1 ''cc'' (example_world (example_tree []))
     = (Some NoSourceFiles, example_world (example_tree []))"
proof -
  have r: "ReadDir (files (example_world (example_tree []))) (Path (heap (example_world (example_tree [])) 1))
     = Inr [FileInfo ''README'' False, FileInfo ''old.c'' True]"
    by (simp add: example_world_def example_heap_def example_src_docs)
  have h: "\<forall>f\<in>set [FileInfo ''README'' False, FileInfo ''old.c'' True].
      \<not> IsDir f \<longrightarrow> \<not> HasSuffix (fname f) ''.c''"
    by (simp add: HasSuffix_def)
  from compile_without_sources_fails [OF r h, of "''cc''" example_cfg example_extern] r
  show ?thesis by simp
qed

text \<open>
  C6. When no entry of the binaries directory has the benchmark's name, the measurement
  step fails with the error \<open>ExecutableNotFound\<close> and starts no process.
\<close>

theorem measure_without_executable_fails:
  assumes "ReadDir (files w) (Bin cfg) = Inr fl"
    and "Name (heap w benchmark) \<notin> fname ` set fl"
  shows "evaluate_benchmark X benchmark cfg repeats w
           = (Some (ExecutableNotFound (Name (heap w benchmark)) (Bin cfg)), w)
         \<and> spawned (snd (evaluate_benchmark X benchmark cfg repeats w)) = spawned w"
  using assms by (simp add: evaluate_benchmark_def directory_contains_file_def has_entry_iff)

lemma example_bin: "ReadDir (example_tree rs) ''bin'' = Inr [FileInfo ''docs'' True]"
  by (simp add: ReadDir_def example_tree_def resolve_def)

theorem measure_without_executable_fails_witness:
  "ReadDir (files (example_world (example_tree []))) (Bin example_cfg) = Inr [FileInfo ''docs'' True]
   \<and> evaluate_benchmark example_extern 0 example_cfg 10 (example_world (example_tree []))
     = (Some (ExecutableNotFound ''add'' ''bin''), example_world (example_tree []))"
proof -
  have r: "ReadDir (files (example_world (example_tree []))) (Bin example_cfg) = Inr [FileInfo ''docs'' True]"
    by (simp add: example_world_def example_cfg_def example_bin)
  have n: "Name (heap (example_world (example_tree [])) 0) \<notin> fname ` set [FileInfo ''docs'' True]"
    by (simp add: example_world_def example_heap_def)
  from measure_without_executable_fails [OF r n, of example_extern 10] r
  show ?thesis by (simp add: example_world_def example_heap_def example_cfg_def)
qed


lemma create_benchmarks_spec:
  "create_benchmarks cfg fl acc w = (bs, w') \<Longrightarrow>
     bs = acc @ [next_addr w ..< next_addr w']
     \<and> next_addr w' = next_addr w + length (filter IsDir fl)
     \<and> map (heap w') [next_addr w ..< next_addr w']
         = map (\<lambda>f. \<lparr>Name = fname f, Path = Src cfg @ ''/'' @ fname f, Runtime = Finite 0,
                        Uncertainty = Finite 0\<rparr>) (filter IsDir fl)
     \<and> (\<forall>a. a < next_addr w \<longrightarrow> heap w' a = heap w a)
     \<and> files w' = files w \<and> spawned w' = spawned w \<and> stdout w' = stdout w"
proof (induction fl arbitrary: acc w)
  case Nil
  then show ?case by simp
next
  case (Cons f0 fl)
  show ?case
  proof (cases "IsDir f0")
    case False
    with Cons.prems have "create_benchmarks cfg fl acc w = (bs, w')" by simp
    from Cons.IH [OF this] False show ?thesis by auto
  next
    case True
    define b where "b = \<lparr>Name = fname f0, Path = Src cfg @ ''/'' @ fname f0, Runtime = Finite 0,
      Uncertainty = Finite 0\<rparr>"
    define w1 where "w1 = w\<lparr>heap := (heap w)(next_addr w := b), next_addr := Suc (next_addr w)\<rparr>"
    from Cons.prems True
    have "create_benchmarks cfg fl (acc @ [next_addr w]) w1 = (bs, w')"
      by (simp add: new_Benchmark_def b_def w1_def Let_def)
    from Cons.IH [OF this]
    have bs: "bs = (acc @ [next_addr w]) @ [next_addr w1 ..< next_addr w']"
      and n: "next_addr w' = next_addr w1 + length (filter IsDir fl)"
      and m: "map (heap w') [next_addr w1 ..< next_addr w']
         = map (\<lambda>f. \<lparr>Name = fname f, Path = Src cfg @ ''/'' @ fname f, Runtime = Finite 0,
                        Uncertainty = Finite 0\<rparr>) (filter IsDir fl)"
      and old: "\<forall>a. a < next_addr w1 \<longrightarrow> heap w' a = heap w1 a"
      and rest: "files w' = files w1" "spawned w' = spawned w1" "stdout w' = stdout w1"
      by blast+
    have n1: "next_addr w1 = Suc (next_addr w)" by (simp add: w1_def)
    have le: "Suc (next_addr w) \<le> next_addr w'" using n n1 by simp
    have upt: "[next_addr w ..< next_addr w'] = next_addr w # [Suc (next_addr w) ..< next_addr w']"
      using le by (simp add: upt_conv_Cons)
    have hb: "heap w' (next_addr w) = b" using old n1 by (simp add: w1_def)
    have keep: "\<forall>a. a < next_addr w \<longrightarrow> heap w' a = heap w a"
      using old n1 by (simp add: w1_def)
    show ?thesis
      using bs n m rest True hb keep unfolding upt n1
      by (simp add: w1_def b_def)
  qed
qed

text \<open>
  C7. Discovery makes one benchmark for each directory among the entries of the source
  root, in the order of the listing and at addresses of their own, with the name of the
  entry, the path \<^verbatim>\<open>sourceRoot/name\<close> and both measurements zero; plain files are
  skipped, nothing below the entries is read, and the benchmarks that were on the heap
  before are untouched.
\<close>

theorem discovery_one_benchmark_per_directory:
  assumes "ReadDir (files w) (Src cfg) = Inr fl"
  shows "\<exists>bs w'. Init_Benchmarks cfg w = (bs, None, w')
           \<and> map (heap w') bs
               = map (\<lambda>f. \<lparr>Name = fname f, Path = Src cfg @ ''/'' @ fname f, Runtime = Finite 0,
                              Uncertainty = Finite 0\<rparr>) (filter IsDir fl)
           \<and> distinct bs
           \<and> (\<forall>a. a < next_addr w \<longrightarrow> heap w' a = heap w a)
           \<and> files w' = files w"
proof -
  obtain bs w' where c: "create_benchmarks cfg fl [] w = (bs, w')" by (cases "create_benchmarks cfg fl [] w")
  from create_benchmarks_spec [OF c]
  have bs: "bs = [next_addr w ..< next_addr w']"
    and m: "map (heap w') [next_addr w ..< next_addr w']
         = map (\<lambda>f. \<lparr>Name = fname f, Path = Src cfg @ ''/'' @ fname f, Runtime = Finite 0,
                        Uncertainty = Finite 0\<rparr>) (filter IsDir fl)"
    and old: "\<forall>a. a < next_addr w \<longrightarrow> heap w' a = heap w a"
    and f: "files w' = files w" by blast+
  have i: "Init_Benchmarks cfg w = (bs, None, w')"
    using assms c by (simp add: Init_Benchmarks_def)
  from i bs m old f show ?thesis by auto
qed

lemma example_src:
  "ReadDir (example_tree rs) ''src''
     = Inr [FileInfo ''add'' True, FileInfo ''docs'' True, FileInfo ''notes.txt'' False]"
  by (simp add: ReadDir_def example_tree_def source_tree_def resolve_def)

theorem discovery_one_benchmark_per_directory_witness:
  "ReadDir (files (example_world (example_tree []))) (Src example_cfg)
     = Inr [FileInfo ''add'' True, FileInfo ''docs'' True, FileInfo ''notes.txt'' False]
   \<and> (case Init_Benchmarks example_cfg (example_world (example_tree [])) of
        (bs, err, w') \<Rightarrow>
          err = None
          \<and> map (heap w') bs
              = [\<lparr>Name = ''add'', Path = ''src/add'', Runtime = Finite 0, Uncertainty = Finite 0\<rparr>,
                 \<lparr>Name = ''docs'', Path = ''src/docs'', Runtime = Finite 0, Uncertainty = Finite 0\<rparr>])"
proof -
  have r: "ReadDir (files (example_world (example_tree []))) (Src example_cfg)
     = Inr [FileInfo ''add'' True, FileInfo ''docs'' True, FileInfo ''notes.txt'' False]"
    by (simp add: example_world_def example_cfg_def example_src)
  from discovery_one_benchmark_per_directory [OF r] r
  show ?thesis by (auto simp: example_cfg_def)
qed

section \<open>The loop of the report parser\<close>

lemma chunks_not_Nil: "chunks s \<noteq> []"
  by (induction s) (auto split: list.splits)

lemma chunks_no_newline: "10 \<notin> set s \<Longrightarrow> chunks s = [s]"
  by (induction s) auto

lemma chunks_newline:
  "10 \<in> set s \<Longrightarrow>
     chunks s = (takeWhile (\<lambda>r. r \<noteq> 10) s @ [10]) # chunks (tl (dropWhile (\<lambda>r. r \<noteq> 10) s))"
proof (induction s)
  case Nil
  then show ?case by simp
next
  case (Cons c cs)
  show ?case
  proof (cases "c = 10")
    case True
    then show ?thesis by simp
  next
    case False
    with Cons.prems have "10 \<in> set cs" by simp
    from Cons.IH [OF this] False show ?thesis by simp
  qed
qed

lemma scan_lines_Bytes: "scan_lines nd (Bytes s) b n = (None, scan_list nd (chunks s) b n)"
proof (induction "length s" arbitrary: s b n rule: less_induct)
  case less
  show ?case
  proof (cases "10 \<in> set s")
    case False
    then show ?thesis
      by (subst scan_lines.simps)
        (simp add: chunks_no_newline Let_def split: sum.splits)
  next
    case True
    define rest where "rest = tl (dropWhile (\<lambda>r. r \<noteq> 10) s)"
    define line where "line = takeWhile (\<lambda>r. r \<noteq> 10) s @ [10]"
    from True have "dropWhile (\<lambda>r. r \<noteq> 10) s \<noteq> []" by (simp add: dropWhile_eq_Nil_conv)
    then have "length rest < length (dropWhile (\<lambda>r. r \<noteq> 10) s)"
      unfolding rest_def by (cases "dropWhile (\<lambda>r. r \<noteq> 10) s") simp_all
    also have "\<dots> \<le> length s" by (rule length_dropWhile_le)
    finally have shorter: "length rest < length s" .
    have ih: "scan_lines nd (Bytes rest) b' n' = (None, scan_list nd (chunks rest) b' n')" for b' n'
      by (rule less [OF shorter])
    have rb: "ReadBytes (Bytes s) 10 = (line, None, Bytes rest)"
      using True by (simp add: line_def rest_def)
    have ch: "chunks s = line # chunks rest"
      using chunks_newline [OF True] by (simp add: line_def rest_def)
    show ?thesis
      by (subst scan_lines.simps)
        (simp add: rb ch ih Let_def del: ReadBytes.simps split: sum.splits)
  qed
qed


lemma scan_lines_Failing:
  "e \<noteq> EOF \<Longrightarrow> scan_lines nd (Failing e) b n = (Some e, b, n)"
  by (subst scan_lines.simps) simp

lemma scan_list_names:
  "scan_list nd ls b n = (b', n') \<Longrightarrow> Name b' = Name b \<and> Path b' = Path b"
proof (induction ls arbitrary: b n)
  case Nil
  then show ?case by simp
next
  case (Cons l ls)
  show ?case
  proof (cases "match_exp l match_duration_exp")
    case (Inl e)
    with Cons.prems have "scan_list nd ls b n = (b', n')" by simp
    from Cons.IH [OF this] show ?thesis .
  next
    case (Inr m)
    show ?thesis
    proof (cases "match_exp l match_uncertainty_exp")
      case (Inl e)
      with Inr Cons.prems
      have "scan_list nd ls (b\<lparr>Runtime := get_float nd m\<rparr>) (n + 1) = (b', n')" by simp
      from Cons.IH [OF this] show ?thesis by simp
    next
      case (Inr m')
      with \<open>match_exp l match_duration_exp = Inr m\<close> Cons.prems show ?thesis by auto
    qed
  qed
qed

lemma scan_list_runtime_origin:
  "scan_list nd ls b n = (b', n') \<Longrightarrow>
     Runtime b' = Runtime b
     \<or> (\<exists>l\<in>set ls. \<exists>m. match_exp l match_duration_exp = Inr m \<and> Runtime b' = get_float nd m)"
proof (induction ls arbitrary: b n)
  case Nil
  then show ?case by simp
next
  case (Cons l ls)
  show ?case
  proof (cases "match_exp l match_duration_exp")
    case (Inl e)
    with Cons.prems have "scan_list nd ls b n = (b', n')" by simp
    from Cons.IH [OF this] show ?thesis by auto
  next
    case (Inr m)
    show ?thesis
    proof (cases "match_exp l match_uncertainty_exp")
      case (Inl e)
      with Inr Cons.prems
      have "scan_list nd ls (b\<lparr>Runtime := get_float nd m\<rparr>) (n + 1) = (b', n')" by simp
      from Cons.IH [OF this] Inr show ?thesis by auto
    next
      case (Inr m')
      with \<open>match_exp l match_duration_exp = Inr m\<close> Cons.prems show ?thesis by auto
    qed
  qed
qed

lemma scan_list_runtime_written:
  "scan_list nd ls b n = (b', n') \<Longrightarrow> l0 \<in> set ls \<Longrightarrow> match_exp l0 match_duration_exp = Inr m0 \<Longrightarrow>
     \<exists>l\<in>set ls. \<exists>m. match_exp l match_duration_exp = Inr m \<and> Runtime b' = get_float nd m"
proof (induction ls arbitrary: b n)
  case Nil
  then show ?case by simp
next
  case (Cons l ls)
  show ?case
  proof (cases "match_exp l match_duration_exp")
    case (Inl e)
    with Cons.prems have s: "scan_list nd ls b n = (b', n')" and "l0 \<in> set ls" by auto
    from Cons.IH [OF s \<open>l0 \<in> set ls\<close> Cons.prems(3)] show ?thesis by auto
  next
    case (Inr m)
    show ?thesis
    proof (cases "match_exp l match_uncertainty_exp")
      case (Inl e)
      with Inr Cons.prems
      have "scan_list nd ls (b\<lparr>Runtime := get_float nd m\<rparr>) (n + 1) = (b', n')" by simp
      from scan_list_runtime_origin [OF this] Inr show ?thesis by auto
    next
      case (Inr m')
      with \<open>match_exp l match_duration_exp = Inr m\<close> Cons.prems show ?thesis by auto
    qed
  qed
qed

lemma get_benchmark_results_File:
  assumes "os_Open (files w) (path [Stats cfg, Name (heap w benchmark) @ ''.txt'']) = Inr (File s)"
  shows "get_benchmark_results X cfg benchmark w =
     (case scan_list (nd_table X) (chunks s) (heap w benchmark) 0 of
        (b, found_params) \<Rightarrow>
          (if found_params \<noteq> 2 then Some IncompleteReport else None,
           w\<lparr>heap := (heap w)(benchmark := b)\<rparr>))"
  using assms
  by (simp add: get_benchmark_results_def scan_lines_Bytes Let_def split: prod.splits)

lemma get_benchmark_results_frame:
  assumes "get_benchmark_results X cfg benchmark w = (r, w')"
  shows "files w' = files w \<and> spawned w' = spawned w \<and> stdout w' = stdout w
     \<and> umask w' = umask w \<and> next_addr w' = next_addr w
     \<and> (\<forall>a. a \<noteq> benchmark \<longrightarrow> heap w' a = heap w a)
     \<and> Name (heap w' benchmark) = Name (heap w benchmark)
     \<and> Path (heap w' benchmark) = Path (heap w benchmark)"
proof (cases "os_Open (files w) (path [Stats cfg, Name (heap w benchmark) @ ''.txt''])")
  case (Inl e)
  with assms show ?thesis by (simp add: get_benchmark_results_def Let_def)
next
  case (Inr opened)
  show ?thesis
  proof (cases opened)
    case (File s)
    obtain b k where sl: "scan_list (nd_table X) (chunks s) (heap w benchmark) 0 = (b, k)"
      by (cases "scan_list (nd_table X) (chunks s) (heap w benchmark) 0")
    from get_benchmark_results_File [of w cfg benchmark s X] Inr File sl assms
    have w': "w' = w\<lparr>heap := (heap w)(benchmark := b)\<rparr>" by simp
    from scan_list_names [OF sl] w' show ?thesis by simp
  next
    case (Dir m es)
    with Inr assms show ?thesis
      by (simp add: get_benchmark_results_def Let_def scan_lines_Failing)
  qed
qed


section \<open>Reports with the two figures on different lines, or without one of them\<close>

lemma report_world_open:
  "os_Open (files (report_world content))
      (path [Stats example_cfg, Name (heap (report_world content) 0) @ ''.txt''])
     = Inr (File content)"
  by (simp add: report_world_def example_world_def example_tree_def example_cfg_def
      example_heap_def os_Open_def resolve_def)

lemmas match_eval =
  match_exp_def match_duration_exp_def match_uncertainty_exp_def rn_def runes_def

lemma lines_duration_first:
  "chunks report_duration_first = [runes ''1,234,567 ns\<newline>'', runes ''3.45%\<newline>'', []]"
  by (simp add: report_duration_first_def runes_def)

lemma lines_uncertainty_first:
  "chunks report_uncertainty_first = [runes ''3.45%\<newline>'', runes ''1,234,567 ns\<newline>'', []]"
  by (simp add: report_uncertainty_first_def runes_def)

lemma match_duration_line:
  "match_exp (runes ''1,234,567 ns\<newline>'') match_duration_exp = Inr (runes ''1,234,567 ns'')"
  "match_exp (runes ''1,234,567 ns\<newline>'') match_uncertainty_exp = Inl (New ''No match found!'')"
  by (simp_all add: match_eval)

lemma match_uncertainty_line:
  "match_exp (runes ''3.45%\<newline>'') match_duration_exp = Inl (New ''No match found!'')"
  "match_exp (runes ''3.45%\<newline>'') match_uncertainty_exp = Inr (runes ''3.45%'')"
  by (simp_all add: match_eval)

lemma match_empty_line:
  "match_exp [] match_duration_exp = Inl (New ''No match found!'')"
  "match_exp [] match_uncertainty_exp = Inl (New ''No match found!'')"
  by (simp_all add: match_eval)

text \<open>
  C1 (the program does not do what the claim says). A report with the duration on one
  line and the uncertainty on another, and no other matching line, is not parsed: in
  either order the loop leaves the uncertainty line (or the duration line's missing
  uncertainty) by \<^verbatim>\<open>continue\<close> and the result is the error \<open>IncompleteReport\<close>.
\<close>

theorem separate_lines_report_fails:
  "map (\<lambda>l. (match_exp l match_duration_exp, match_exp l match_uncertainty_exp))
       (chunks report_duration_first)
     = [(Inr (runes ''1,234,567 ns''), Inl (New ''No match found!'')),
        (Inl (New ''No match found!''), Inr (runes ''3.45%'')),
        (Inl (New ''No match found!''), Inl (New ''No match found!''))]
   \<and> fst (get_benchmark_results X example_cfg 0 (report_world report_duration_first))
       = Some IncompleteReport
   \<and> fst (get_benchmark_results X example_cfg 0 (report_world report_uncertainty_first))
       = Some IncompleteReport"
proof -
  have a: "map (\<lambda>l. (match_exp l match_duration_exp, match_exp l match_uncertainty_exp))
       (chunks report_duration_first)
     = [(Inr (runes ''1,234,567 ns''), Inl (New ''No match found!'')),
        (Inl (New ''No match found!''), Inr (runes ''3.45%'')),
        (Inl (New ''No match found!''), Inl (New ''No match found!''))]"
    by (simp add: lines_duration_first match_duration_line match_uncertainty_line
        match_empty_line)
  have b: "fst (get_benchmark_results X example_cfg 0 (report_world report_duration_first))
       = Some IncompleteReport"
    by (simp add: get_benchmark_results_File [OF report_world_open] lines_duration_first
        match_duration_line match_uncertainty_line match_empty_line)
  have c: "fst (get_benchmark_results X example_cfg 0 (report_world report_uncertainty_first))
       = Some IncompleteReport"
    by (simp add: get_benchmark_results_File [OF report_world_open] lines_uncertainty_first
        match_duration_line match_uncertainty_line match_empty_line)
  from a b c show ?thesis by blast
qed

lemma lines_two_durations:
  "chunks report_two_durations = [runes ''1 ns\<newline>'', runes ''2 ns\<newline>'', []]"
  by (simp add: report_two_durations_def runes_def)

lemma match_short_lines:
  "match_exp (runes ''1 ns\<newline>'') match_duration_exp = Inr (runes ''1 ns'')"
  "match_exp (runes ''1 ns\<newline>'') match_uncertainty_exp = Inl (New ''No match found!'')"
  "match_exp (runes ''2 ns\<newline>'') match_duration_exp = Inr (runes ''2 ns'')"
  "match_exp (runes ''2 ns\<newline>'') match_uncertainty_exp = Inl (New ''No match found!'')"
  by (simp_all add: match_eval)

text \<open>
  C2 (the program does not do what the claim says). A report with two lines that match
  the duration pattern and no line that matches the uncertainty pattern is accepted:
  \<open>found_params\<close> counts the two durations, the result is no error, the runtime is that
  of the second line and the uncertainty keeps the value it had before the call.
\<close>

theorem two_durations_report_accepted:
  "map (\<lambda>l. match_exp l match_uncertainty_exp) (chunks report_two_durations)
     = [Inl (New ''No match found!''), Inl (New ''No match found!''),
        Inl (New ''No match found!'')]
   \<and> get_benchmark_results X example_cfg 0 (report_world report_two_durations)
       = (None, (report_world report_two_durations)
            \<lparr>heap := (heap (report_world report_two_durations))
               (0 := \<lparr>Name = ''add'', Path = ''src/add'', Runtime = Finite 2, Uncertainty = Finite 0\<rparr>)\<rparr>)"
proof -
  have a: "map (\<lambda>l. match_exp l match_uncertainty_exp) (chunks report_two_durations)
     = [Inl (New ''No match found!''), Inl (New ''No match found!''),
        Inl (New ''No match found!'')]"
    by (simp add: lines_two_durations match_short_lines match_empty_line)
  have h: "heap (report_world report_two_durations) 0
      = \<lparr>Name = ''add'', Path = ''src/add'', Runtime = Finite 0, Uncertainty = Finite 0\<rparr>"
    by (simp add: report_world_def example_world_def example_heap_def)
  have g: "get_float (nd_table X) (runes ''2 ns'') = Finite 2"
    by (simp add: float_eval runes_def)
  have b: "get_benchmark_results X example_cfg 0 (report_world report_two_durations)
       = (None, (report_world report_two_durations)
            \<lparr>heap := (heap (report_world report_two_durations))
               (0 := \<lparr>Name = ''add'', Path = ''src/add'', Runtime = Finite 2, Uncertainty = Finite 0\<rparr>)\<rparr>)"
    by (simp add: get_benchmark_results_File [OF report_world_open] lines_two_durations
        match_short_lines match_empty_line h g)
  from a b show ?thesis by blast
qed

text \<open>
  C9. When \<^verbatim>\<open>get_benchmark_results\<close> returns the error \<open>IncompleteReport\<close> and a line of
  the report matched the duration pattern, the runtime of the benchmark is the value
  parsed from a line that matched: the field is written as soon as a line matches and is
  not restored when the call fails.
\<close>

theorem failed_parse_keeps_runtime:
  assumes "os_Open (files w) (path [Stats cfg, Name (heap w benchmark) @ ''.txt'']) = Inr (File s)"
    and "get_benchmark_results X cfg benchmark w = (Some IncompleteReport, w')"
    and "l \<in> set (chunks s)"
    and "match_exp l match_duration_exp = Inr m"
  shows "\<exists>l'\<in>set (chunks s). \<exists>m'. match_exp l' match_duration_exp = Inr m'
           \<and> Runtime (heap w' benchmark) = get_float (nd_table X) m'"
proof -
  obtain b k where sl: "scan_list (nd_table X) (chunks s) (heap w benchmark) 0 = (b, k)"
    by (cases "scan_list (nd_table X) (chunks s) (heap w benchmark) 0")
  from get_benchmark_results_File [OF assms(1), of X] sl assms(2)
  have "w' = w\<lparr>heap := (heap w)(benchmark := b)\<rparr>" by simp
  then have "heap w' benchmark = b" by simp
  with scan_list_runtime_written [OF sl assms(3) assms(4)] show ?thesis by simp
qed

lemma lines_duration_only: "chunks report_duration_only = [runes ''5 ns\<newline>'', []]"
  by (simp add: report_duration_only_def runes_def)

lemma match_five:
  "match_exp (runes ''5 ns\<newline>'') match_duration_exp = Inr (runes ''5 ns'')"
  "match_exp (runes ''5 ns\<newline>'') match_uncertainty_exp = Inl (New ''No match found!'')"
  by (simp_all add: match_eval)

theorem failed_parse_keeps_runtime_witness:
  "get_benchmark_results example_extern example_cfg 0 (report_world report_duration_only)
     = (Some IncompleteReport, (report_world report_duration_only)
          \<lparr>heap := (heap (report_world report_duration_only))
             (0 := \<lparr>Name = ''add'', Path = ''src/add'', Runtime = Finite 5, Uncertainty = Finite 0\<rparr>)\<rparr>)
   \<and> Runtime (heap (report_world report_duration_only) 0) = Finite 0
   \<and> (\<exists>l'\<in>set (chunks report_duration_only). \<exists>m'. match_exp l' match_duration_exp = Inr m'
         \<and> Runtime (heap ((report_world report_duration_only)
              \<lparr>heap := (heap (report_world report_duration_only))
                 (0 := \<lparr>Name = ''add'', Path = ''src/add'', Runtime = Finite 5, Uncertainty = Finite 0\<rparr>)\<rparr>) 0)
             = get_float (nd_table example_extern) m')"
proof -
  have h: "heap (report_world report_duration_only) 0
      = \<lparr>Name = ''add'', Path = ''src/add'', Runtime = Finite 0, Uncertainty = Finite 0\<rparr>"
    by (simp add: report_world_def example_world_def example_heap_def)
  have g: "get_float (nd_table example_extern) (runes ''5 ns'') = Finite 5"
    by (simp add: float_eval runes_def)
  have r: "get_benchmark_results example_extern example_cfg 0 (report_world report_duration_only)
     = (Some IncompleteReport, (report_world report_duration_only)
          \<lparr>heap := (heap (report_world report_duration_only))
             (0 := \<lparr>Name = ''add'', Path = ''src/add'', Runtime = Finite 5, Uncertainty = Finite 0\<rparr>)\<rparr>)"
    by (simp add: get_benchmark_results_File [OF report_world_open] lines_duration_only
        match_five match_empty_line h g)
  have l: "runes ''5 ns\<newline>'' \<in> set (chunks report_duration_only)"
    by (simp add: lines_duration_only)
  from failed_parse_keeps_runtime [OF report_world_open r l match_five(1)] r h
  show ?thesis by simp
qed

section \<open>The probe and the skip of the compilation\<close>

lemma probe_finds_directory:
  assumes "ReadDir fs directory = Inr fl" and "FileInfo name True \<in> set fl"
  shows "directory_contains_file name directory fs = Inr True"
proof -
  from assms(2) have "name \<in> fname ` set fl" by force
  with assms(1) show ?thesis by (simp add: directory_contains_file_def has_entry_iff)
qed

lemma evaluate_benchmark_present:
  assumes "directory_contains_file (Name (heap w benchmark)) (Bin cfg) (files w) = Inr True"
  shows "evaluate_benchmark X benchmark cfg repeats w =
     Run X (Command ''sudo''
        [''chrt'', ''-f'', ''99'', ''perf'', ''stat'', ''-o'',
         Stats cfg @ ''/'' @ Name (heap w benchmark) @ ''.txt'', ''-e'', ''duration_time'',
         ''--repeat='' @ itoa repeats, Bin cfg @ ''/'' @ Name (heap w benchmark)]) w"
  using assms by (simp add: evaluate_benchmark_def)

lemma Run_frame:
  "Run X c w = (r, w') \<Longrightarrow>
     spawned w' = spawned w @ [c] \<and> stdout w' = stdout w \<and> heap w' = heap w"
  by (auto simp: Run_def split: prod.splits)

text \<open>
  C10. The probe answers true for an entry of any kind whose name is the one looked for,
  a directory too. With a sub-directory of the benchmark's name in the binaries
  directory, \<^verbatim>\<open>evaluate_benchmark\<close> passes its test and starts the measurement on that
  path, and \<^verbatim>\<open>Evaluate_Benchmark\<close> skips the compilation: the only command it starts is
  the measurement, and its first output is the success line of the compile step.
\<close>

theorem directory_passes_for_executable:
  assumes "ReadDir (files w) (Bin cfg) = Inr fl"
    and "FileInfo (Name (heap w benchmark)) True \<in> set fl"
  shows "directory_contains_file (Name (heap w benchmark)) (Bin cfg) (files w) = Inr True
    \<and> evaluate_benchmark X benchmark cfg repeats w =
        Run X (Command ''sudo''
          [''chrt'', ''-f'', ''99'', ''perf'', ''stat'', ''-o'',
           Stats cfg @ ''/'' @ Name (heap w benchmark) @ ''.txt'', ''-e'', ''duration_time'',
           ''--repeat='' @ itoa repeats, Bin cfg @ ''/'' @ Name (heap w benchmark)]) w
    \<and> (\<exists>r w' rest. Evaluate_Benchmark X compiler cfg repeats benchmark w = (r, w')
          \<and> spawned w' = spawned w @ [Command ''sudo''
              [''chrt'', ''-f'', ''99'', ''perf'', ''stat'', ''-o'',
               Stats cfg @ ''/'' @ Name (heap w benchmark) @ ''.txt'', ''-e'', ''duration_time'',
               ''--repeat='' @ itoa repeats, Bin cfg @ ''/'' @ Name (heap w benchmark)]]
          \<and> stdout w' = stdout w @ ''- Success'' # rest)"
proof -
  define c where "c = Command ''sudo''
          [''chrt'', ''-f'', ''99'', ''perf'', ''stat'', ''-o'',
           Stats cfg @ ''/'' @ Name (heap w benchmark) @ ''.txt'', ''-e'', ''duration_time'',
           ''--repeat='' @ itoa repeats, Bin cfg @ ''/'' @ Name (heap w benchmark)]"
  define ev where "ev = [CHR ''E'', CHR ''v'', CHR ''a'', CHR ''l'', CHR ''u'', CHR ''a'',
    CHR ''t'', CHR ''i'', CHR ''n'', CHR ''g'', CHR '' '', CHR ''b'', CHR ''e'', CHR ''n'',
    CHR ''c'', CHR ''h'', CHR ''m'', CHR ''a'', CHR ''r'', CHR ''k'', CHR '' '', CHR 0x22]
    @ Name (heap w benchmark) @ [CHR 0x22, CHR ''.'', CHR ''.'', CHR ''.'']"
  define w3 where "w3 = Println ev (Println ''- Success'' w)"
  have probe: "directory_contains_file (Name (heap w benchmark)) (Bin cfg) (files w) = Inr True"
    by (rule probe_finds_directory [OF assms])
  have w3: "files w3 = files w" "heap w3 = heap w" "spawned w3 = spawned w"
    "stdout w3 = stdout w @ [''- Success'', ev]"
    by (simp_all add: w3_def Println_def)
  from probe w3 have probe3:
    "directory_contains_file (Name (heap w3 benchmark)) (Bin cfg) (files w3) = Inr True"
    by simp
  have e3: "evaluate_benchmark X benchmark cfg repeats w3 = Run X c w3"
    using evaluate_benchmark_present [OF probe3, of X repeats] w3 by (simp add: c_def)
  obtain r4 w4 where run: "Run X c w3 = (r4, w4)" by (cases "Run X c w3")
  from Run_frame [OF run] w3
  have w4: "spawned w4 = spawned w @ [c]" "stdout w4 = stdout w @ [''- Success'', ev]"
    by simp_all
  have "\<exists>r w' rest. Evaluate_Benchmark X compiler cfg repeats benchmark w = (r, w')
          \<and> spawned w' = spawned w @ [c] \<and> stdout w' = stdout w @ ''- Success'' # rest"
  proof (cases r4)
    case (Some err)
    with probe e3 run
    have "Evaluate_Benchmark X compiler cfg repeats benchmark w
        = (Some (New (''Problem evaluating benchmark: '' @ Error err)), w4)"
      by (simp add: Evaluate_Benchmark_def Let_def w3_def ev_def Println_def)
    with w4 show ?thesis by simp
  next
    case None
    obtain r6 w6 where g: "get_benchmark_results X cfg benchmark (Println ''- Success'' w4) = (r6, w6)"
      by (cases "get_benchmark_results X cfg benchmark (Println ''- Success'' w4)")
    from get_benchmark_results_frame [OF g] w4
    have w6: "spawned w6 = spawned w @ [c]"
      "stdout w6 = stdout w @ ''- Success'' # [ev, ''- Success'']"
      by (simp_all add: Println_def)
    from None probe e3 run g
    have "snd (Evaluate_Benchmark X compiler cfg repeats benchmark w) = w6"
      by (cases r6) (simp_all add: Evaluate_Benchmark_def Let_def w3_def ev_def Println_def)
    then have "Evaluate_Benchmark X compiler cfg repeats benchmark w
        = (fst (Evaluate_Benchmark X compiler cfg repeats benchmark w), w6)"
      by (simp add: prod_eq_iff)
    with w6 show ?thesis by blast
  qed
  with probe evaluate_benchmark_present [OF probe, of X repeats] show ?thesis
    unfolding c_def by blast
qed

theorem directory_passes_for_executable_witness:
  "ReadDir (files (example_world (example_tree []))) (Bin example_cfg) = Inr [FileInfo ''docs'' True]
   \<and> directory_contains_file ''docs'' ''bin'' (example_tree []) = Inr True
   \<and> (\<exists>r w' rest.
        Evaluate_Benchmark example_extern ''cc'' example_cfg 10 1 (example_world (example_tree []))
          = (r, w')
        \<and> spawned w' = [Command ''sudo''
              [''chrt'', ''-f'', ''99'', ''perf'', ''stat'', ''-o'', ''stats/docs.txt'', ''-e'',
               ''duration_time'', ''--repeat=10'', ''bin/docs'']]
        \<and> stdout w' = ''- Success'' # rest)"
proof -
  have r: "ReadDir (files (example_world (example_tree []))) (Bin example_cfg)
      = Inr [FileInfo ''docs'' True]"
    by (simp add: example_world_def example_cfg_def example_bin)
  have n: "FileInfo (Name (heap (example_world (example_tree [])) 1)) True
      \<in> set [FileInfo ''docs'' True]"
    by (simp add: example_world_def example_heap_def)
  have i: "itoa 10 = ''10''" by (simp add: itoa_def digit_char_def)
  from directory_passes_for_executable [OF r n, of example_extern 10 "''cc''"] r
  show ?thesis
    by (simp add: example_world_def example_heap_def example_cfg_def i)
qed

section \<open>The filter of the benchmarks without results\<close>

lemma write_fields_idem: "write_fields ro uo (write_fields ro uo b) = write_fields ro uo b"
  by (simp add: write_fields_def split: option.splits)

lemma write_fields_names:
  "Name (write_fields ro uo b) = Name b" "Path (write_fields ro uo b) = Path b"
  by (simp_all add: write_fields_def)

lemma scan_list_effect:
  "\<exists>ro uo k. \<forall>b n. scan_list nd ls b n = (write_fields ro uo b, n + k)"
proof (induction ls)
  case Nil
  have "\<forall>b n. scan_list nd [] b n = (write_fields None None b, n + 0)"
    by (simp add: write_fields_def)
  then show ?case by blast
next
  case (Cons l ls)
  then obtain ro uo k where ih: "\<And>b n. scan_list nd ls b n = (write_fields ro uo b, n + k)"
    by blast
  show ?case
  proof (cases "match_exp l match_duration_exp")
    case (Inl e)
    with ih have "\<forall>b n. scan_list nd (l # ls) b n = (write_fields ro uo b, n + k)" by simp
    then show ?thesis by blast
  next
    case (Inr m)
    show ?thesis
    proof (cases "match_exp l match_uncertainty_exp")
      case (Inl e)
      have "\<forall>b n. scan_list nd (l # ls) b n
          = (write_fields (Some (case ro of None \<Rightarrow> get_float nd m | Some x \<Rightarrow> x)) uo b, n + (1 + k))"
        using Inr Inl ih by (simp add: write_fields_def split: option.splits)
      then show ?thesis by blast
    next
      case (Inr m')
      have "\<forall>b n. scan_list nd (l # ls) b n
          = (write_fields (Some (get_float nd m)) (Some (get_float nd m')) b, n + 2)"
        using \<open>match_exp l match_duration_exp = Inr m\<close> Inr by (simp add: write_fields_def)
      then show ?thesis by blast
    qed
  qed
qed

lemma get_benchmark_results_success:
  assumes ok: "get_benchmark_results X cfg b w = (None, w1)"
  shows "\<exists>ro uo. \<forall>v. files v = files w \<longrightarrow> Name (heap v b) = Name (heap w b) \<longrightarrow>
           get_benchmark_results X cfg b v
             = (None, v\<lparr>heap := (heap v)(b := write_fields ro uo (heap v b))\<rparr>)"
proof (cases "os_Open (files w) (path [Stats cfg, Name (heap w b) @ ''.txt''])")
  case (Inl e)
  with ok show ?thesis by (simp add: get_benchmark_results_def Let_def)
next
  case (Inr opened)
  show ?thesis
  proof (cases opened)
    case (Dir m es)
    with Inr ok show ?thesis
      by (simp add: get_benchmark_results_def Let_def scan_lines_Failing)
  next
    case (File s)
    from scan_list_effect [of "nd_table X" "chunks s"]
    obtain ro uo k where eff:
      "\<And>c n. scan_list (nd_table X) (chunks s) c n = (write_fields ro uo c, n + k)" by blast
    from get_benchmark_results_File [of w cfg b s X] Inr File ok eff
    have k: "k = 2" by (simp split: if_splits)
    have "get_benchmark_results X cfg b v
             = (None, v\<lparr>heap := (heap v)(b := write_fields ro uo (heap v b))\<rparr>)"
      if "files v = files w" "Name (heap v b) = Name (heap w b)" for v
    proof -
      from that Inr File
      have "os_Open (files v) (path [Stats cfg, Name (heap v b) @ ''.txt'']) = Inr (File s)"
        by simp
      from get_benchmark_results_File [OF this, of X] eff k show ?thesis by simp
    qed
    then show ?thesis by blast
  qed
qed


lemma unevaluated_loop_spec:
  assumes rd: "ReadDir (files w) (Stats cfg) = Inr fl"
  shows "unevaluated_loop X cfg bs acc v = (un, None, v') \<Longrightarrow>
     files v = files w \<Longrightarrow> (\<forall>a. Name (heap v a) = Name (heap w a)) \<Longrightarrow>
     (\<forall>a. heap v a = heap w a
          \<or> (\<exists>w1. get_benchmark_results X cfg a w = (None, w1) \<and> heap v a = heap w1 a)) \<Longrightarrow>
     un = acc @ filter (\<lambda>a. Name (heap w a) @ ''.txt'' \<notin> fname ` set fl) bs
     \<and> (\<forall>a\<in>set bs. Name (heap w a) @ ''.txt'' \<in> fname ` set fl \<longrightarrow>
           (\<exists>w1. get_benchmark_results X cfg a w = (None, w1) \<and> heap v' a = heap w1 a))
     \<and> (\<forall>a. (\<exists>w1. get_benchmark_results X cfg a w = (None, w1) \<and> heap v a = heap w1 a) \<longrightarrow>
           (\<exists>w1. get_benchmark_results X cfg a w = (None, w1) \<and> heap v' a = heap w1 a))
     \<and> (\<forall>a. Name (heap w a) @ ''.txt'' \<notin> fname ` set fl \<longrightarrow> heap v' a = heap v a)"
proof (induction bs arbitrary: acc v)
  case Nil
  then show ?case by simp
next
  case (Cons b bs)
  let ?present = "\<lambda>a. Name (heap w a) @ ''.txt'' \<in> fname ` set fl"
  let ?parsed = "\<lambda>u a. \<exists>w1. get_benchmark_results X cfg a w = (None, w1) \<and> heap u a = heap w1 a"
  have probe: "directory_contains_file (Name (heap v b) @ ''.txt'') (Stats cfg) (files v)
      = Inr (?present b)"
    using rd Cons.prems(2,3) by (simp add: directory_contains_file_def has_entry_iff)
  show ?case
  proof (cases "?present b")
    case False
    with probe Cons.prems(1)
    have "unevaluated_loop X cfg bs (acc @ [b]) v = (un, None, v')" by simp
    from Cons.IH [OF this Cons.prems(2,3,4)] False show ?thesis by simp
  next
    case True
    obtain r1 v1 where g: "get_benchmark_results X cfg b v = (r1, v1)"
      by (cases "get_benchmark_results X cfg b v")
    from probe True g Cons.prems(1) have r1: "r1 = None" by (cases r1) simp_all
    from probe True g r1 Cons.prems(1)
    have rest: "unevaluated_loop X cfg bs acc v1 = (un, None, v')" by simp
    from get_benchmark_results_frame [OF g]
    have f1: "files v1 = files v" and other: "\<And>a. a \<noteq> b \<Longrightarrow> heap v1 a = heap v a"
      and n1: "Name (heap v1 b) = Name (heap v b)" by simp_all
    from g r1 get_benchmark_results_success [of X cfg b v v1]
    obtain ro uo where eff: "\<And>u. files u = files v \<Longrightarrow> Name (heap u b) = Name (heap v b) \<Longrightarrow>
        get_benchmark_results X cfg b u
          = (None, u\<lparr>heap := (heap u)(b := write_fields ro uo (heap u b))\<rparr>)"
      by blast
    have gw: "get_benchmark_results X cfg b w
        = (None, w\<lparr>heap := (heap w)(b := write_fields ro uo (heap w b))\<rparr>)"
      using eff [of w] Cons.prems(2,3) by simp
    have gv: "heap v1 b = write_fields ro uo (heap v b)"
      using eff [of v] g by simp
    have pb: "?parsed v1 b"
    proof -
      from Cons.prems(4) have "heap v b = heap w b \<or> ?parsed v b" by blast
      then have "heap v1 b = write_fields ro uo (heap w b)"
      proof
        assume "heap v b = heap w b"
        with gv show ?thesis by simp
      next
        assume "?parsed v b"
        with gw have "heap v b = write_fields ro uo (heap w b)" by auto
        with gv show ?thesis by (simp add: write_fields_idem)
      qed
      with gw show ?thesis by simp
    qed
    have keep: "?parsed v a \<Longrightarrow> ?parsed v1 a" for a
      using pb other [of a] by (cases "a = b") auto
    have names1: "\<forall>a. Name (heap v1 a) = Name (heap w a)"
      using Cons.prems(3) n1 other by metis
    have inv1: "\<forall>a. heap v1 a = heap w a \<or> ?parsed v1 a"
    proof
      fix a
      from Cons.prems(4) have "heap v a = heap w a \<or> ?parsed v a" by blast
      then show "heap v1 a = heap w a \<or> ?parsed v1 a"
        using pb other [of a] keep [of a] by (cases "a = b") auto
    qed
    from Cons.IH [OF rest _ names1 inv1] f1 Cons.prems(2)
    have un: "un = acc @ filter (\<lambda>a. \<not> ?present a) bs"
      and finished: "\<forall>a\<in>set bs. ?present a \<longrightarrow> ?parsed v' a"
      and stay: "\<forall>a. ?parsed v1 a \<longrightarrow> ?parsed v' a"
      and absent: "\<forall>a. \<not> ?present a \<longrightarrow> heap v' a = heap v1 a"
      by simp_all
    have c1: "un = acc @ filter (\<lambda>a. \<not> ?present a) (b # bs)" using un True by simp
    have c2: "\<forall>a\<in>set (b # bs). ?present a \<longrightarrow> ?parsed v' a"
      using finished stay pb by simp
    have c3: "\<forall>a. ?parsed v a \<longrightarrow> ?parsed v' a" using stay keep by blast
    have c4: "\<forall>a. \<not> ?present a \<longrightarrow> heap v' a = heap v a"
    proof (intro allI impI)
      fix a assume a: "\<not> ?present a"
      with True have "a \<noteq> b" by auto
      with absent a other [of a] show "heap v' a = heap v a" by simp
    qed
    from c1 c2 c3 c4 show ?thesis by blast
  qed
qed

text \<open>
  What holds of the filter whenever it returns without error: the benchmarks it returns
  are those of the input whose \<^verbatim>\<open>name.txt\<close> is not among the entries of the results
  directory, in their order, and they are as they were; every other benchmark of the
  input carries what a call of \<^verbatim>\<open>get_benchmark_results\<close> that returned no error left
  in it.
\<close>

lemma unevaluated_filter:
  assumes "Get_Unevaluated_Benchmarks X cfg benchmarks w = (unevaluated, None, w')"
    and "ReadDir (files w) (Stats cfg) = Inr fl"
  shows "unevaluated = filter (\<lambda>a. Name (heap w a) @ ''.txt'' \<notin> fname ` set fl) benchmarks
    \<and> (\<forall>a\<in>set benchmarks.
          (a \<in> set unevaluated \<longleftrightarrow> Name (heap w a) @ ''.txt'' \<notin> fname ` set fl))
    \<and> (\<forall>a\<in>set benchmarks. a \<notin> set unevaluated \<longrightarrow>
          (\<exists>w1. get_benchmark_results X cfg a w = (None, w1) \<and> heap w' a = heap w1 a))
    \<and> (\<forall>a\<in>set unevaluated. heap w' a = heap w a)"
proof -
  from assms(1) have l: "unevaluated_loop X cfg benchmarks [] w = (unevaluated, None, w')"
    by (simp add: Get_Unevaluated_Benchmarks_def)
  from unevaluated_loop_spec [OF assms(2) l]
  have un: "unevaluated = filter (\<lambda>a. Name (heap w a) @ ''.txt'' \<notin> fname ` set fl) benchmarks"
    and parsed: "\<forall>a\<in>set benchmarks. Name (heap w a) @ ''.txt'' \<in> fname ` set fl \<longrightarrow>
           (\<exists>w1. get_benchmark_results X cfg a w = (None, w1) \<and> heap w' a = heap w1 a)"
    and absent: "\<forall>a. Name (heap w a) @ ''.txt'' \<notin> fname ` set fl \<longrightarrow> heap w' a = heap w a"
    by simp_all
  have iff: "\<forall>a\<in>set benchmarks.
          (a \<in> set unevaluated \<longleftrightarrow> Name (heap w a) @ ''.txt'' \<notin> fname ` set fl)"
    using un by simp
  have p: "\<forall>a\<in>set benchmarks. a \<notin> set unevaluated \<longrightarrow>
          (\<exists>w1. get_benchmark_results X cfg a w = (None, w1) \<and> heap w' a = heap w1 a)"
    using parsed iff by blast
  have u: "\<forall>a\<in>set unevaluated. heap w' a = heap w a"
    using un absent by simp
  from un iff p u show ?thesis by blast
qed


lemma lines_perf:
  "chunks report_perf = [runes ''   1,234,567 ns   duration_time   ( +-  3.45% )\<newline>'', []]"
  by (simp add: report_perf_def runes_def)

lemma match_perf:
  "match_exp (runes ''   1,234,567 ns   duration_time   ( +-  3.45% )\<newline>'') match_duration_exp
     = Inr (runes ''1,234,567 ns'')"
  "match_exp (runes ''   1,234,567 ns   duration_time   ( +-  3.45% )\<newline>'')
     match_uncertainty_exp = Inr (runes ''3.45%'')"
  by (simp_all add: match_eval)

text \<open>The report of the measurement tool is parsed: 1234567 and the \<^verbatim>\<open>float64\<close> 3.45.\<close>

lemma parse_perf:
  "get_benchmark_results X example_cfg 0 (report_world report_perf)
     = (None, (report_world report_perf)
         \<lparr>heap := (heap (report_world report_perf))
            (0 := \<lparr>Name = ''add'', Path = ''src/add'', Runtime = Finite 1234567,
                    Uncertainty = round64 (345 / 100)\<rparr>)\<rparr>)"
proof -
  have h: "heap (report_world report_perf) 0
      = \<lparr>Name = ''add'', Path = ''src/add'', Runtime = Finite 0, Uncertainty = Finite 0\<rparr>"
    by (simp add: report_world_def example_world_def example_heap_def)
  have g: "get_float (nd_table X) (runes ''1,234,567 ns'') = Finite 1234567"
    "get_float (nd_table X) (runes ''3.45%'') = round64 (345 / 100)"
    by (simp_all add: float_eval runes_def)
  show ?thesis
    by (simp add: get_benchmark_results_File [OF report_world_open] lines_perf match_perf h g)
qed

lemma stale_world_open:
  "os_Open (files (stale_world content))
      (path [Stats example_cfg, Name (heap (stale_world content) 0) @ ''.txt''])
     = Inr (File content)"
  by (simp add: stale_world_def report_world_def example_world_def example_tree_def
      example_cfg_def os_Open_def resolve_def)

lemma stale_world_stats:
  "ReadDir (files (stale_world content)) (Stats example_cfg) = Inr [FileInfo ''add.txt'' False]"
  by (simp add: stale_world_def report_world_def example_world_def example_tree_def
      example_cfg_def ReadDir_def resolve_def)

text \<open>
  C8 (the program does not do what the claim says). With a cached report of two lines
  that match the duration pattern and none that matches the uncertainty pattern, the
  filter returns without error and leaves the benchmark out of the unevaluated ones,
  though its uncertainty has not been read from the report: it is the value the
  benchmark had before the call.
\<close>

theorem cached_report_without_uncertainty_excluded:
  "map (\<lambda>l. match_exp l match_uncertainty_exp) (chunks report_two_durations)
     = [Inl (New ''No match found!''), Inl (New ''No match found!''),
        Inl (New ''No match found!'')]
   \<and> Uncertainty (heap (stale_world report_two_durations) 0) = Finite 9
   \<and> Get_Unevaluated_Benchmarks X example_cfg [0, 1] (stale_world report_two_durations)
       = ([1], None, (stale_world report_two_durations)
            \<lparr>heap := (heap (stale_world report_two_durations))
               (0 := \<lparr>Name = ''add'', Path = ''src/add'', Runtime = Finite 2,
                       Uncertainty = Finite 9\<rparr>)\<rparr>)"
proof -
  let ?W = "stale_world report_two_durations"
  let ?W' = "?W\<lparr>heap := (heap ?W)
      (0 := \<lparr>Name = ''add'', Path = ''src/add'', Runtime = Finite 2, Uncertainty = Finite 9\<rparr>)\<rparr>"
  have a: "map (\<lambda>l. match_exp l match_uncertainty_exp) (chunks report_two_durations)
     = [Inl (New ''No match found!''), Inl (New ''No match found!''),
        Inl (New ''No match found!'')]"
    by (simp add: lines_two_durations match_short_lines match_empty_line)
  have h: "heap ?W 0
      = \<lparr>Name = ''add'', Path = ''src/add'', Runtime = Finite 7, Uncertainty = Finite 9\<rparr>"
    "heap ?W (Suc 0)
      = \<lparr>Name = ''docs'', Path = ''src/docs'', Runtime = Finite 0, Uncertainty = Finite 0\<rparr>"
    "files ?W' = files ?W"
    by (simp_all add: stale_world_def example_heap_def)
  have g: "get_float (nd_table X) (runes ''2 ns'') = Finite 2"
    by (simp add: float_eval runes_def)
  have parse: "get_benchmark_results X example_cfg 0 ?W = (None, ?W')"
    by (simp add: get_benchmark_results_File [OF stale_world_open] lines_two_durations
        match_short_lines match_empty_line h g)
  have p0: "directory_contains_file ''add.txt'' (Stats example_cfg) (files ?W) = Inr True"
    by (simp add: directory_contains_file_def stale_world_stats)
  have p1: "directory_contains_file ''docs.txt'' (Stats example_cfg) (files ?W) = Inr False"
    by (simp add: directory_contains_file_def stale_world_stats)
  have b: "Get_Unevaluated_Benchmarks X example_cfg [0, 1] ?W = ([1], None, ?W')"
    using parse by (simp add: Get_Unevaluated_Benchmarks_def h p0 p1)
  from a h(1) b show ?thesis by simp
qed

section \<open>The directories of the environment\<close>

lemma split_path_not_Nil: "split_path p \<noteq> []"
  by (induction p) (auto split: list.splits)

lemma split_path_no_slash: "c \<in> set (split_path p) \<Longrightarrow> CHR ''/'' \<notin> set c"
proof (induction p arbitrary: c)
  case Nil
  then show ?case by simp
next
  case (Cons a p)
  show ?case
  proof (cases "a = CHR ''/''")
    case True
    with Cons show ?thesis by auto
  next
    case False
    obtain x xs where sp: "split_path p = x # xs"
      using split_path_not_Nil [of p] by (cases "split_path p") auto
    from Cons.IH [of x] sp have x: "CHR ''/'' \<notin> set x" by simp
    from Cons.IH sp have xs: "\<And>c. c \<in> set xs \<Longrightarrow> CHR ''/'' \<notin> set c" by simp
    from Cons.prems False sp have "c = a # x \<or> c \<in> set xs" by simp
    with False x xs show ?thesis by auto
  qed
qed

lemma split_path_plain: "CHR ''/'' \<notin> set n \<Longrightarrow> split_path n = [n]"
  by (induction n) auto

lemma walk_without_empty:
  "walk n (filter (\<lambda>x. x \<noteq> []) xs) = Some (Dir k es) \<Longrightarrow> walk n xs = Some (Dir k es)"
proof (induction xs arbitrary: n)
  case Nil
  then show ?case by simp
next
  case (Cons x xs)
  show ?case
  proof (cases n)
    case (File c)
    with Cons.prems show ?thesis
      by (cases "filter (\<lambda>x. x \<noteq> []) (x # xs)") (simp_all split: if_splits)
  next
    case (Dir m es0)
    show ?thesis
    proof (cases "x = []")
      case True
      with Cons.prems have "walk n (filter (\<lambda>x. x \<noteq> []) xs) = Some (Dir k es)" by simp
      from Cons.IH [OF this] True Dir show ?thesis by simp
    next
      case False
      with Cons.prems Dir show ?thesis
        by (auto split: option.splits if_splits intro: Cons.IH)
    qed
  qed
qed

lemma map_of_update_entry:
  "map_of es x = Some c \<Longrightarrow>
     map_of (update_entry x v es) p = (if p = x then Some v else map_of es p)"
  by (induction es) (auto split: if_splits)

lemma keys_update_entry: "fst ` set (update_entry x v es) = fst ` set es"
  by (induction es) force+

lemma listing_update_entry:
  "map_of es x = Some c \<Longrightarrow> is_directory v = is_directory c \<Longrightarrow>
     map (\<lambda>(n, y). FileInfo n (is_directory y)) (update_entry x v es)
       = map (\<lambda>(n, y). FileInfo n (is_directory y)) es"
  by (induction es) (auto split: if_splits)

lemma mkdir_at_Dir: "mkdir_at (Dir m es) cs mode = Inr n' \<Longrightarrow> \<exists>es'. n' = Dir m es'"
proof (induction "Dir m es" cs mode arbitrary: n' rule: mkdir_at.induct)
  case (1 mode)
  then show ?case by simp
next
  case (3 x mode)
  then show ?case by (auto split: if_splits option.splits)
next
  case (4 x y ys mode)
  then show ?case by (auto split: if_splits option.splits sum.splits)
qed

lemma mkdir_at_File: "mkdir_at (File c) cs mode \<noteq> Inr n'"
  by (cases cs) simp_all

text \<open>The directory that \<^verbatim>\<open>Mkdir\<close> made is found at its path, empty and with its mode.\<close>

lemma mkdir_at_creates:
  "mkdir_at n cs mode = Inr n' \<Longrightarrow> [] \<notin> set cs \<Longrightarrow> walk n' cs = Some (Dir mode [])"
proof (induction n cs mode arbitrary: n' rule: mkdir_at.induct)
  case (1 n mode)
  then show ?case by simp
next
  case (2 c x xs mode)
  then show ?case by simp
next
  case (3 m es x mode)
  then show ?case by (auto split: if_splits option.splits simp: map_add_def)
next
  case (4 m es x y ys mode)
  from "4.prems"(2) have x: "x \<noteq> []" and rest: "[] \<notin> set (y # ys)" by auto
  show ?case
  proof (cases "x = ''.''")
    case True
    with "4.prems"(1) have mk: "mkdir_at (Dir m es) (y # ys) mode = Inr n'" by simp
    from mkdir_at_Dir [OF mk] obtain es' where n': "n' = Dir m es'" by blast
    from "4.IH"(1) [OF True mk rest] True n' show ?thesis by simp
  next
    case False
    with "4.prems"(1) obtain c c' where c: "map_of es x = Some c"
      and mk: "mkdir_at c (y # ys) mode = Inr c'" and n': "n' = Dir m (update_entry x c' es)"
      by (auto split: option.splits sum.splits)
    from "4.IH"(2) [OF False c mk rest] have "walk c' (y # ys) = Some (Dir mode [])" .
    with False x n' c show ?thesis by (simp add: map_of_update_entry)
  qed
qed

lemma walk_related:
  assumes rel: "\<And>p c. map_of es p = Some c \<Longrightarrow>
      \<exists>c'. map_of es' p = Some c'
        \<and> (\<forall>ps k e0. walk c ps = Some (Dir k e0) \<longrightarrow> (\<exists>e'. walk c' ps = Some (Dir k e')))"
  shows "walk (Dir m es) ps = Some (Dir k e0) \<Longrightarrow> \<exists>e'. walk (Dir m es') ps = Some (Dir k e')"
proof (induction ps)
  case Nil
  then show ?case by simp
next
  case (Cons p ps)
  show ?case
  proof (cases "p = [] \<or> p = ''.''")
    case True
    with Cons show ?thesis by auto
  next
    case False
    with Cons.prems obtain c where c: "map_of es p = Some c"
      and w: "walk c ps = Some (Dir k e0)"
      by (auto split: option.splits)
    from rel [OF c] w obtain c' e' where "map_of es' p = Some c'"
      "walk c' ps = Some (Dir k e')" by blast
    with False show ?thesis by auto
  qed
qed

text \<open>A directory that was there before \<^verbatim>\<open>Mkdir\<close> is a directory of that mode after it.\<close>

lemma mkdir_at_keeps:
  "mkdir_at n cs mode = Inr n' \<Longrightarrow> walk n ps = Some (Dir k e0) \<Longrightarrow>
     \<exists>e'. walk n' ps = Some (Dir k e')"
proof (induction n cs mode arbitrary: n' ps k e0 rule: mkdir_at.induct)
  case (1 n mode)
  then show ?case by simp
next
  case (2 c x xs mode)
  then show ?case by simp
next
  case (3 m es x mode)
  from "3.prems"(1) have n': "n' = Dir m (es @ [(x, Dir mode [])])"
    by (auto split: if_splits option.splits)
  have "\<exists>e'. walk (Dir m (es @ [(x, Dir mode [])])) ps = Some (Dir k e')"
  proof (rule walk_related [OF _ "3.prems"(2)])
    fix p c assume "map_of es p = Some c"
    then show "\<exists>c'. map_of (es @ [(x, Dir mode [])]) p = Some c'
        \<and> (\<forall>ps k e0. walk c ps = Some (Dir k e0) \<longrightarrow> (\<exists>e'. walk c' ps = Some (Dir k e')))"
      by (simp add: map_add_def)
  qed
  with n' show ?case by simp
next
  case (4 m es x y ys mode)
  show ?case
  proof (cases "x = ''.''")
    case True
    with "4.prems"(1) have mk: "mkdir_at (Dir m es) (y # ys) mode = Inr n'" by simp
    from "4.IH"(1) [OF True mk "4.prems"(2)] show ?thesis .
  next
    case False
    with "4.prems"(1) obtain c c' where c: "map_of es x = Some c"
      and mk: "mkdir_at c (y # ys) mode = Inr c'" and n': "n' = Dir m (update_entry x c' es)"
      by (auto split: option.splits sum.splits)
    have "\<exists>e'. walk (Dir m (update_entry x c' es)) ps = Some (Dir k e')"
    proof (rule walk_related [OF _ "4.prems"(2)])
      fix p d assume d: "map_of es p = Some d"
      show "\<exists>d'. map_of (update_entry x c' es) p = Some d'
        \<and> (\<forall>ps k e0. walk d ps = Some (Dir k e0) \<longrightarrow> (\<exists>e'. walk d' ps = Some (Dir k e')))"
      proof (cases "p = x")
        case True
        with c d have "d = c" by simp
        with True c "4.IH"(2) [OF False c mk] show ?thesis
          by (auto simp: map_of_update_entry)
      next
        case ne: False
        with c d show ?thesis by (auto simp: map_of_update_entry)
      qed
    qed
    with n' show ?thesis by simp
  qed
qed

text \<open>The entries that a directory listed before \<^verbatim>\<open>Mkdir\<close> are listed after it.\<close>

lemma mkdir_at_listing:
  "mkdir_at (Dir m es) cs mode = Inr (Dir m' es') \<Longrightarrow>
     m' = m \<and> set (map (\<lambda>(n, y). FileInfo n (is_directory y)) es)
          \<subseteq> set (map (\<lambda>(n, y). FileInfo n (is_directory y)) es')"
proof (induction "Dir m es" cs mode arbitrary: es' rule: mkdir_at.induct)
  case (1 mode)
  then show ?case by simp
next
  case (3 x mode)
  then show ?case by (auto split: if_splits option.splits)
next
  case (4 x y ys mode)
  show ?case
  proof (cases "x = ''.''")
    case True
    with "4.prems" have "mkdir_at (Dir m es) (y # ys) mode = Inr (Dir m' es')" by simp
    from "4.hyps"(1) [OF True this] show ?thesis .
  next
    case False
    with "4.prems" obtain c c' where c: "map_of es x = Some c"
      and mk: "mkdir_at c (y # ys) mode = Inr c'"
      and n': "Dir m' es' = Dir m (update_entry x c' es)"
      by (auto split: option.splits sum.splits)
    from mk obtain k e where cd: "c = Dir k e" using mkdir_at_File by (cases c) auto
    with mkdir_at_Dir mk obtain e' where "c' = Dir k e'" by blast
    with cd have "is_directory c' = is_directory c" by simp
    from listing_update_entry [OF c this] n' show ?thesis by simp
  qed
qed

text \<open>
  A name that the working directory lists after \<^verbatim>\<open>Mkdir\<close> and did not list before is
  the directory that was made.
\<close>

lemma mkdir_at_new_entry:
  "mkdir_at (Dir m es) cs mode = Inr (Dir m' es') \<Longrightarrow> k \<in> fst ` set es' \<Longrightarrow>
     k \<notin> fst ` set es \<Longrightarrow>
     map_of es' k = Some (Dir mode []) \<and> k \<in> set cs \<and> k \<noteq> ''.''"
proof (induction "Dir m es" cs mode arbitrary: es' rule: mkdir_at.induct)
  case (1 mode)
  then show ?case by simp
next
  case (3 x mode)
  from "3.prems"(1) have e: "es' = es @ [(x, Dir mode [])]" and x: "x \<noteq> ''.''"
    and none: "map_of es x = None"
    by (auto split: if_splits option.splits)
  from e "3.prems"(2,3) have "k = x" by auto
  with e x none show ?case by (simp add: map_add_def)
next
  case (4 x y ys mode)
  show ?case
  proof (cases "x = ''.''")
    case True
    with "4.prems"(1) have "mkdir_at (Dir m es) (y # ys) mode = Inr (Dir m' es')" by simp
    from "4.hyps"(1) [OF True this "4.prems"(2,3)] show ?thesis by simp
  next
    case False
    with "4.prems"(1) obtain c' where "es' = update_entry x c' es"
      by (auto split: option.splits sum.splits)
    with "4.prems"(2,3) show ?thesis by (simp add: keys_update_entry)
  qed
qed

lemma ReadDir_root:
  "ReadDir (Dir m es) ''.'' =
     (if m AND 256 = 0 then Inl (Os ''open .: permission denied'')
      else Inr (sort_key fname (map (\<lambda>(n, x). FileInfo n (is_directory x)) es)))"
  by (simp add: ReadDir_def resolve_def)

lemma ReadDir_root_Inr:
  "ReadDir fs ''.'' = Inr fl \<Longrightarrow>
     \<exists>m es. fs = Dir m es \<and> set fl = set (map (\<lambda>(n, x). FileInfo n (is_directory x)) es)
       \<and> fname ` set fl = fst ` set es"
proof (cases fs)
  case (File c)
  assume "ReadDir fs ''.'' = Inr fl"
  with File show ?thesis by (simp add: ReadDir_def resolve_def)
next
  case (Dir m es)
  assume "ReadDir fs ''.'' = Inr fl"
  with Dir have fl: "fl = sort_key fname (map (\<lambda>(n, x). FileInfo n (is_directory x)) es)"
    by (simp add: ReadDir_root split: if_splits)
  then have "set fl = set (map (\<lambda>(n, x). FileInfo n (is_directory x)) es)" by simp
  moreover from fl have "fname ` set fl = fst ` set es" by force
  ultimately show ?thesis using Dir by blast
qed

text \<open>
  One round of \<^verbatim>\<open>make_directories\<close> that succeeds: the name is listed and nothing
  changes, or it is not and \<^verbatim>\<open>Mkdir\<close> makes the directory.
\<close>

lemma make_if_needed_success:
  assumes ok: "make_if_needed name w = (None, w1)"
  shows "\<exists>m es es1 fl. files w = Dir m es \<and> files w1 = Dir m es1 \<and> umask w1 = umask w
     \<and> ReadDir (files w) ''.'' = Inr fl \<and> fname ` set fl = fst ` set es
     \<and> (es1 = es \<and> name \<in> fst ` set es
         \<or> name \<notin> fst ` set es
           \<and> mkdir_at (Dir m es) (filter (\<lambda>x. x \<noteq> []) (split_path name))
                (511 - (511 AND umask w)) = Inr (Dir m es1))"
proof -
  from ok obtain fl where rd: "ReadDir (files w) ''.'' = Inr fl"
    by (cases "ReadDir (files w) ''.''")
      (simp_all add: make_if_needed_def directory_contains_file_def)
  from ReadDir_root_Inr [OF rd] obtain m es where fs: "files w = Dir m es"
    and names: "fname ` set fl = fst ` set es" by blast
  show ?thesis
  proof (cases "name \<in> fst ` set es")
    case True
    with ok rd names have "w1 = w"
      by (simp add: make_if_needed_def directory_contains_file_def has_entry_iff)
    with fs rd names True show ?thesis by simp
  next
    case False
    from False ok rd names
    have mk: "os_Mkdir (Dir m es) (umask w) name 511 = (None, files w1)"
      and um: "umask w1 = umask w"
      by (auto simp: make_if_needed_def directory_contains_file_def has_entry_iff fs
          split: prod.splits)
    then have at: "mkdir_at (Dir m es) (filter (\<lambda>x. x \<noteq> []) (split_path name))
        (511 - (511 AND umask w)) = Inr (files w1)"
      by (auto simp: os_Mkdir_def split: sum.splits)
    from mkdir_at_Dir [OF at] obtain es1 where "files w1 = Dir m es1" by blast
    with at fs um rd names False show ?thesis by auto
  qed
qed

lemma made_directory_resolves:
  assumes "mkdir_at fs (filter (\<lambda>x. x \<noteq> []) (split_path name)) mode = Inr fs'"
  shows "resolve fs' name = Some (Dir mode [])"
proof -
  have ne: "[] \<notin> set (filter (\<lambda>x. x \<noteq> []) (split_path name))" by simp
  from assms have "name \<noteq> []" by (cases name) auto
  moreover from walk_without_empty [OF mkdir_at_creates [OF assms ne]]
  have "walk fs' (split_path name) = Some (Dir mode [])" .
  ultimately show ?thesis by (simp add: resolve_def)
qed

lemma Init_Env_steps:
  "Init_Env cfg w = (None, w') \<Longrightarrow>
     \<exists>w1. make_if_needed (Stats cfg) w = (None, w1) \<and> make_if_needed (Bin cfg) w1 = (None, w')"
  by (auto simp: Init_Env_def split: prod.splits option.splits)

lemma Init_Env_success:
  assumes ok: "Init_Env cfg w = (None, w')"
  shows "\<exists>fl fl'. ReadDir (files w) ''.'' = Inr fl \<and> ReadDir (files w') ''.'' = Inr fl'
     \<and> set fl \<subseteq> set fl'
     \<and> (Stats cfg \<notin> fname ` set fl \<longrightarrow>
           (\<exists>es. resolve (files w') (Stats cfg) = Some (Dir (511 - (511 AND umask w)) es)))
     \<and> (Bin cfg \<notin> fname ` set fl \<longrightarrow>
           resolve (files w') (Bin cfg) = Some (Dir (511 - (511 AND umask w)) []))"
proof -
  let ?mode = "511 - (511 AND umask w)"
  let ?info = "\<lambda>(n, x). FileInfo n (is_directory x)"
  let ?comps = "\<lambda>name. filter (\<lambda>x. x \<noteq> []) (split_path name)"
  from Init_Env_steps [OF ok] obtain w1
    where s1: "make_if_needed (Stats cfg) w = (None, w1)"
      and s2: "make_if_needed (Bin cfg) w1 = (None, w')" by blast
  from make_if_needed_success [OF s1] obtain m es es1 fl
    where fw: "files w = Dir m es" and fw1: "files w1 = Dir m es1" and um: "umask w1 = umask w"
      and r: "ReadDir (files w) ''.'' = Inr fl" and n: "fname ` set fl = fst ` set es"
      and c1: "es1 = es \<and> Stats cfg \<in> fst ` set es
         \<or> Stats cfg \<notin> fst ` set es
           \<and> mkdir_at (Dir m es) (?comps (Stats cfg)) ?mode = Inr (Dir m es1)"
    by blast
  from make_if_needed_success [OF s2] fw1 um obtain es2 fl1
    where fw': "files w' = Dir m es2"
      and r1: "ReadDir (files w1) ''.'' = Inr fl1"
      and c2: "es2 = es1 \<and> Bin cfg \<in> fst ` set es1
         \<or> Bin cfg \<notin> fst ` set es1
           \<and> mkdir_at (Dir m es1) (?comps (Bin cfg)) ?mode = Inr (Dir m es2)"
    by auto
  from r fw have readable: "m AND 256 \<noteq> 0" by (simp add: ReadDir_root split: if_splits)
  define fl' where "fl' = sort_key fname (map ?info es2)"
  have r': "ReadDir (files w') ''.'' = Inr fl'"
    using readable by (simp add: fw' ReadDir_root fl'_def)
  have sfl: "set fl = set (map ?info es)"
    using r fw readable by (auto simp: ReadDir_root)
  have sub1: "set (map ?info es) \<subseteq> set (map ?info es1)"
    using c1 mkdir_at_listing [of m es "?comps (Stats cfg)" ?mode m es1] by auto
  have sub2: "set (map ?info es1) \<subseteq> set (map ?info es2)"
    using c2 mkdir_at_listing [of m es1 "?comps (Bin cfg)" ?mode m es2] by auto
  have a: "set fl \<subseteq> set fl'" using sfl sub1 sub2 by (simp add: fl'_def)
  have step2: "\<exists>e'. resolve (files w') p = Some (Dir k e')"
    if "resolve (files w1) p = Some (Dir k e0)" for p k e0
  proof -
    from c2 show ?thesis
    proof
      assume "es2 = es1 \<and> Bin cfg \<in> fst ` set es1"
      with that fw1 fw' show ?thesis by simp
    next
      assume "Bin cfg \<notin> fst ` set es1
        \<and> mkdir_at (Dir m es1) (?comps (Bin cfg)) ?mode = Inr (Dir m es2)"
      then have mk: "mkdir_at (Dir m es1) (?comps (Bin cfg)) ?mode = Inr (Dir m es2)" by simp
      from that have p: "p \<noteq> []" and w: "walk (Dir m es1) (split_path p) = Some (Dir k e0)"
        by (simp_all add: resolve_def fw1 split: if_splits)
      from mkdir_at_keeps [OF mk w] p show ?thesis by (simp add: resolve_def fw')
    qed
  qed
  have b: "\<exists>es. resolve (files w') (Stats cfg) = Some (Dir ?mode es)"
    if absent: "Stats cfg \<notin> fname ` set fl"
  proof -
    from absent n c1
    have "mkdir_at (Dir m es) (?comps (Stats cfg)) ?mode = Inr (Dir m es1)" by auto
    from made_directory_resolves [OF this] fw1
    have "resolve (files w1) (Stats cfg) = Some (Dir ?mode [])" by simp
    from step2 [OF this] show ?thesis .
  qed
  have c: "resolve (files w') (Bin cfg) = Some (Dir ?mode [])"
    if absent: "Bin cfg \<notin> fname ` set fl"
  proof (cases "Bin cfg \<in> fst ` set es1")
    case False
    with c2 have "mkdir_at (Dir m es1) (?comps (Bin cfg)) ?mode = Inr (Dir m es2)" by auto
    from made_directory_resolves [OF this] fw' show ?thesis by simp
  next
    case True
    from absent n have notin: "Bin cfg \<notin> fst ` set es" by simp
    with True c1
    have mk: "mkdir_at (Dir m es) (?comps (Stats cfg)) ?mode = Inr (Dir m es1)" by auto
    from mkdir_at_new_entry [OF mk True notin]
    have found: "map_of es1 (Bin cfg) = Some (Dir ?mode [])"
      and comp: "Bin cfg \<in> set (?comps (Stats cfg))" and dot: "Bin cfg \<noteq> ''.''" by simp_all
    from comp have ne: "Bin cfg \<noteq> []" and "Bin cfg \<in> set (split_path (Stats cfg))" by simp_all
    from split_path_no_slash [OF this(2)] have "split_path (Bin cfg) = [Bin cfg]"
      by (rule split_path_plain)
    with found ne dot fw1 have "resolve (files w1) (Bin cfg) = Some (Dir ?mode [])"
      by (simp add: resolve_def)
    moreover from True c2 have "es2 = es1" by auto
    ultimately show ?thesis by (simp add: fw1 fw')
  qed
  from r r' a b c show ?thesis by blast
qed

text \<open>
  C4, as amended. \<^verbatim>\<open>Init_Env\<close> looks after the results and the binaries directory and
  takes no account of the source root. When it succeeds, the working directory lists
  every entry it listed before, and each of the two names is listed there or is a
  directory; a name that the working directory did not list is a directory made by
  \<^verbatim>\<open>Mkdir\<close> with mode \<^verbatim>\<open>0777\<close> less the bits of the process's mask (the binaries
  directory still empty). When the working directory cannot be listed, or the first or
  the second directory cannot be made, \<^verbatim>\<open>Init_Env\<close> ends with that error, which
  \<^verbatim>\<open>main\<close> makes fatal.
\<close>

theorem Init_Env_results_and_binaries:
  "(Init_Env cfg w = (None, w') \<longrightarrow>
      (\<exists>fl fl'. ReadDir (files w) ''.'' = Inr fl \<and> ReadDir (files w') ''.'' = Inr fl'
         \<and> set fl \<subseteq> set fl'
         \<and> (Stats cfg \<in> fname ` set fl'
              \<or> (\<exists>es. resolve (files w') (Stats cfg) = Some (Dir (511 - (511 AND umask w)) es)))
         \<and> (Bin cfg \<in> fname ` set fl'
              \<or> resolve (files w') (Bin cfg) = Some (Dir (511 - (511 AND umask w)) []))
         \<and> (Stats cfg \<notin> fname ` set fl \<longrightarrow>
              (\<exists>es. resolve (files w') (Stats cfg) = Some (Dir (511 - (511 AND umask w)) es)))
         \<and> (Bin cfg \<notin> fname ` set fl \<longrightarrow>
              resolve (files w') (Bin cfg) = Some (Dir (511 - (511 AND umask w)) []))))
   \<and> Init_Env (cfg\<lparr>Src := s\<rparr>) w = Init_Env cfg w
   \<and> (ReadDir (files w) ''.'' = Inl e \<longrightarrow> Init_Env cfg w = (Some e, w))
   \<and> (make_if_needed (Stats cfg) w = (Some e, w1) \<longrightarrow> Init_Env cfg w = (Some e, w1))
   \<and> (make_if_needed (Stats cfg) w = (None, w1) \<longrightarrow>
        make_if_needed (Bin cfg) w1 = (Some e, w2) \<longrightarrow> Init_Env cfg w = (Some e, w2))
   \<and> (directory_contains_file name ''.'' (files w) = Inr False \<longrightarrow>
        os_Mkdir (files w) (umask w) name 511 = (Some e, fs') \<longrightarrow>
        make_if_needed name w = (Some e, w\<lparr>files := fs'\<rparr>))
   \<and> (Init_Env main_cfg w = (Some e, w1) \<longrightarrow> main X w = (Fatal (Error e), w1))"
proof -
  have a: "Init_Env cfg w = (None, w') \<longrightarrow>
      (\<exists>fl fl'. ReadDir (files w) ''.'' = Inr fl \<and> ReadDir (files w') ''.'' = Inr fl'
         \<and> set fl \<subseteq> set fl'
         \<and> (Stats cfg \<in> fname ` set fl'
              \<or> (\<exists>es. resolve (files w') (Stats cfg) = Some (Dir (511 - (511 AND umask w)) es)))
         \<and> (Bin cfg \<in> fname ` set fl'
              \<or> resolve (files w') (Bin cfg) = Some (Dir (511 - (511 AND umask w)) []))
         \<and> (Stats cfg \<notin> fname ` set fl \<longrightarrow>
              (\<exists>es. resolve (files w') (Stats cfg) = Some (Dir (511 - (511 AND umask w)) es)))
         \<and> (Bin cfg \<notin> fname ` set fl \<longrightarrow>
              resolve (files w') (Bin cfg) = Some (Dir (511 - (511 AND umask w)) [])))"
  proof
    assume "Init_Env cfg w = (None, w')"
    from Init_Env_success [OF this] obtain fl fl'
      where r: "ReadDir (files w) ''.'' = Inr fl" "ReadDir (files w') ''.'' = Inr fl'"
        and sub: "set fl \<subseteq> set fl'"
        and st: "Stats cfg \<notin> fname ` set fl \<longrightarrow>
              (\<exists>es. resolve (files w') (Stats cfg) = Some (Dir (511 - (511 AND umask w)) es))"
        and bn: "Bin cfg \<notin> fname ` set fl \<longrightarrow>
              resolve (files w') (Bin cfg) = Some (Dir (511 - (511 AND umask w)) [])"
      by blast
    from sub have names: "fname ` set fl \<subseteq> fname ` set fl'" by blast
    from st names
    have st': "Stats cfg \<in> fname ` set fl'
        \<or> (\<exists>es. resolve (files w') (Stats cfg) = Some (Dir (511 - (511 AND umask w)) es))"
      by blast
    from bn names
    have bn': "Bin cfg \<in> fname ` set fl'
        \<or> resolve (files w') (Bin cfg) = Some (Dir (511 - (511 AND umask w)) [])"
      by blast
    from r sub st' bn' st bn
    show "\<exists>fl fl'. ReadDir (files w) ''.'' = Inr fl \<and> ReadDir (files w') ''.'' = Inr fl'
         \<and> set fl \<subseteq> set fl'
         \<and> (Stats cfg \<in> fname ` set fl'
              \<or> (\<exists>es. resolve (files w') (Stats cfg) = Some (Dir (511 - (511 AND umask w)) es)))
         \<and> (Bin cfg \<in> fname ` set fl'
              \<or> resolve (files w') (Bin cfg) = Some (Dir (511 - (511 AND umask w)) []))
         \<and> (Stats cfg \<notin> fname ` set fl \<longrightarrow>
              (\<exists>es. resolve (files w') (Stats cfg) = Some (Dir (511 - (511 AND umask w)) es)))
         \<and> (Bin cfg \<notin> fname ` set fl \<longrightarrow>
              resolve (files w') (Bin cfg) = Some (Dir (511 - (511 AND umask w)) []))"
      by blast
  qed
  have b: "Init_Env (cfg\<lparr>Src := s\<rparr>) w = Init_Env cfg w" by (simp add: Init_Env_def)
  have l: "ReadDir (files w) ''.'' = Inl e \<longrightarrow> Init_Env cfg w = (Some e, w)"
    by (simp add: Init_Env_def make_if_needed_def directory_contains_file_def)
  have c: "make_if_needed (Stats cfg) w = (Some e, w1) \<longrightarrow> Init_Env cfg w = (Some e, w1)"
    by (simp add: Init_Env_def)
  have d: "make_if_needed (Stats cfg) w = (None, w1) \<longrightarrow>
        make_if_needed (Bin cfg) w1 = (Some e, w2) \<longrightarrow> Init_Env cfg w = (Some e, w2)"
    by (simp add: Init_Env_def)
  have e: "directory_contains_file name ''.'' (files w) = Inr False \<longrightarrow>
        os_Mkdir (files w) (umask w) name 511 = (Some e, fs') \<longrightarrow>
        make_if_needed name w = (Some e, w\<lparr>files := fs'\<rparr>)"
    by (simp add: make_if_needed_def)
  have f: "Init_Env main_cfg w = (Some e, w1) \<longrightarrow> main X w = (Fatal (Error e), w1)"
    by (simp add: main_def)
  from a b l c d e f show ?thesis by blast
qed

lemmas env_eval =
  Init_Env_def make_if_needed_def directory_contains_file_def ReadDir_def resolve_def
  os_Mkdir_def example_world_def

lemma Init_Env_fresh:
  "Init_Env example_cfg fresh_world
     = (None, fresh_world\<lparr>files := Dir 493 [(''stats'', Dir 493 []), (''bin'', Dir 493 [])]\<rparr>)"
  by (simp add: env_eval fresh_world_def example_cfg_def)

lemma Init_Env_plain_stats:
  "Init_Env example_cfg plain_stats_world
     = (None, plain_stats_world\<lparr>files := Dir 493 [(''stats'', File []), (''bin'', Dir 493 [])]\<rparr>)"
  by (simp add: env_eval plain_stats_world_def example_cfg_def)

lemma Init_Env_nested:
  "Init_Env nested_cfg out_world
     = (None, out_world\<lparr>files :=
          Dir 493 [(''out'', Dir 493 [(''bin'', Dir 493 [])]), (''stats'', Dir 493 [])]\<rparr>)"
  by (simp add: env_eval out_world_def nested_cfg_def)

text \<open>
  C4 as it is stated fails: in an empty working directory \<^verbatim>\<open>Init_Env\<close> succeeds and
  the source root does not exist afterwards; the two directories it made have the mode
  \<^verbatim>\<open>0755\<close> (493) under the mask \<^verbatim>\<open>022\<close> (18); and where \<^verbatim>\<open>stats\<close> is a plain file,
  \<^verbatim>\<open>Init_Env\<close> succeeds and \<^verbatim>\<open>stats\<close> is still that file.
\<close>

theorem Init_Env_three_directories_counterexample:
  "Init_Env example_cfg fresh_world
     = (None, fresh_world\<lparr>files := Dir 493 [(''stats'', Dir 493 []), (''bin'', Dir 493 [])]\<rparr>)
   \<and> resolve (Dir 493 [(''stats'', Dir 493 []), (''bin'', Dir 493 [])]) (Src example_cfg) = None
   \<and> umask fresh_world = 18
   \<and> Init_Env example_cfg plain_stats_world
     = (None, plain_stats_world\<lparr>files := Dir 493 [(''stats'', File []), (''bin'', Dir 493 [])]\<rparr>)
   \<and> resolve (Dir 493 [(''stats'', File []), (''bin'', Dir 493 [])]) (Stats example_cfg)
     = Some (File [])"
proof -
  have a: "resolve (Dir 493 [(''stats'', Dir 493 []), (''bin'', Dir 493 [])]) (Src example_cfg)
      = None"
    by (simp add: resolve_def example_cfg_def)
  have b: "umask fresh_world = 18" by (simp add: fresh_world_def example_world_def)
  have c: "resolve (Dir 493 [(''stats'', File []), (''bin'', Dir 493 [])]) (Stats example_cfg)
     = Some (File [])"
    by (simp add: resolve_def example_cfg_def)
  from Init_Env_fresh a b Init_Env_plain_stats c show ?thesis by blast
qed

theorem Init_Env_results_and_binaries_witness:
  "Init_Env example_cfg fresh_world
     = (None, fresh_world\<lparr>files := Dir 493 [(''stats'', Dir 493 []), (''bin'', Dir 493 [])]\<rparr>)
   \<and> ReadDir (files fresh_world) ''.'' = Inr []
   \<and> (\<exists>es. resolve (Dir 493 [(''stats'', Dir 493 []), (''bin'', Dir 493 [])]) ''stats''
       = Some (Dir 493 es))
   \<and> resolve (Dir 493 [(''stats'', Dir 493 []), (''bin'', Dir 493 [])]) ''bin''
       = Some (Dir 493 [])
   \<and> Init_Env nested_cfg out_world
       = (None, out_world\<lparr>files :=
            Dir 493 [(''out'', Dir 493 [(''bin'', Dir 493 [])]), (''stats'', Dir 493 [])]\<rparr>)
   \<and> ReadDir (files out_world) ''.'' = Inr [FileInfo ''out'' True]
   \<and> resolve (Dir 493 [(''out'', Dir 493 [(''bin'', Dir 493 [])]), (''stats'', Dir 493 [])])
       ''out/bin'' = Some (Dir 493 [])
   \<and> ReadDir (files unlistable_world) ''.'' = Inl (Os ''open .: permission denied'')
   \<and> Init_Env main_cfg unlistable_world
       = (Some (Os ''open .: permission denied''), unlistable_world)
   \<and> main example_extern unlistable_world
       = (Fatal ''open .: permission denied'', unlistable_world)
   \<and> directory_contains_file ''stats'' ''.'' (files readonly_world) = Inr False
   \<and> os_Mkdir (files readonly_world) (umask readonly_world) ''stats'' 511
       = (Some (Os ''mkdir stats: permission denied''), Dir 365 [])
   \<and> Init_Env main_cfg readonly_world
       = (Some (Os ''mkdir stats: permission denied''), readonly_world)
   \<and> main example_extern readonly_world
       = (Fatal ''mkdir stats: permission denied'', readonly_world)
   \<and> make_if_needed (Stats nested_cfg) fresh_world
       = (None, fresh_world\<lparr>files := Dir 493 [(''stats'', Dir 493 [])]\<rparr>)
   \<and> make_if_needed (Bin nested_cfg) (fresh_world\<lparr>files := Dir 493 [(''stats'', Dir 493 [])]\<rparr>)
       = (Some (Os ''mkdir out/bin: no such file or directory''),
          fresh_world\<lparr>files := Dir 493 [(''stats'', Dir 493 [])]\<rparr>)
   \<and> Init_Env nested_cfg fresh_world
       = (Some (Os ''mkdir out/bin: no such file or directory''),
          fresh_world\<lparr>files := Dir 493 [(''stats'', Dir 493 [])]\<rparr>)"
proof -
  let ?F1 = "Dir 493 [(''stats'', Dir 493 []), (''bin'', Dir 493 [])]"
  let ?F3 = "Dir 493 [(''out'', Dir 493 [(''bin'', Dir 493 [])]), (''stats'', Dir 493 [])]"
  let ?W1 = "fresh_world\<lparr>files := ?F1\<rparr>"
  let ?W2 = "fresh_world\<lparr>files := Dir 493 [(''stats'', Dir 493 [])]\<rparr>"
  let ?W3 = "out_world\<lparr>files := ?F3\<rparr>"
  let ?denied = "Os ''mkdir stats: permission denied''"
  let ?missing = "Os ''mkdir out/bin: no such file or directory''"
  let ?closed = "Os ''open .: permission denied''"
  have fresh: "ReadDir (files fresh_world) ''.'' = Inr []" "umask fresh_world = 18"
    "files ?W1 = ?F1"
    by (simp_all add: fresh_world_def example_world_def ReadDir_def resolve_def)
  have names: "Stats example_cfg = ''stats''" "Bin example_cfg = ''bin''"
    by (simp_all add: example_cfg_def)
  have mode: "511 - (511 AND (18::nat)) = 493" by simp
  from Init_Env_results_and_binaries [of example_cfg fresh_world ?W1] Init_Env_fresh
  obtain fl where s: "ReadDir (files fresh_world) ''.'' = Inr fl"
    "Stats example_cfg \<notin> fname ` set fl \<longrightarrow>
       (\<exists>es. resolve (files ?W1) (Stats example_cfg)
          = Some (Dir (511 - (511 AND umask fresh_world)) es))"
    "Bin example_cfg \<notin> fname ` set fl \<longrightarrow>
       resolve (files ?W1) (Bin example_cfg) = Some (Dir (511 - (511 AND umask fresh_world)) [])"
    by blast
  from s(1) fresh(1) have fl: "fl = []" by simp
  from s(2) fl have "\<exists>es. resolve (files ?W1) (Stats example_cfg)
          = Some (Dir (511 - (511 AND umask fresh_world)) es)" by simp
  then have made1: "\<exists>es. resolve ?F1 ''stats'' = Some (Dir 493 es)"
    by (simp only: fresh names mode)
  from s(3) fl have "resolve (files ?W1) (Bin example_cfg)
      = Some (Dir (511 - (511 AND umask fresh_world)) [])" by simp
  then have made2: "resolve ?F1 ''bin'' = Some (Dir 493 [])"
    by (simp only: fresh names mode)
  have out: "ReadDir (files out_world) ''.'' = Inr [FileInfo ''out'' True]"
    "umask out_world = 18" "files ?W3 = ?F3" "Bin nested_cfg = ''out/bin''"
    by (simp_all add: out_world_def example_world_def ReadDir_def resolve_def nested_cfg_def)
  from Init_Env_results_and_binaries [of nested_cfg out_world ?W3] Init_Env_nested
  obtain fl where t: "ReadDir (files out_world) ''.'' = Inr fl"
    "Bin nested_cfg \<notin> fname ` set fl \<longrightarrow>
       resolve (files ?W3) (Bin nested_cfg) = Some (Dir (511 - (511 AND umask out_world)) [])"
    by blast
  from t(1) out(1) have "fl = [FileInfo ''out'' True]" by simp
  with t(2) have "resolve (files ?W3) (Bin nested_cfg)
      = Some (Dir (511 - (511 AND umask out_world)) [])"
    by (simp add: nested_cfg_def)
  then have made3: "resolve ?F3 ''out/bin'' = Some (Dir 493 [])"
    by (simp only: out mode)
  have ul: "ReadDir (files unlistable_world) ''.'' = Inl ?closed"
    by (simp add: unlistable_world_def example_world_def ReadDir_def resolve_def)
  from Init_Env_results_and_binaries [of main_cfg unlistable_world _ _ ?closed] ul
  have i0: "Init_Env main_cfg unlistable_world = (Some ?closed, unlistable_world)"
    by blast
  from Init_Env_results_and_binaries
    [of main_cfg unlistable_world _ _ ?closed unlistable_world _ _ _ example_extern] i0
  have f0: "main example_extern unlistable_world
      = (Fatal ''open .: permission denied'', unlistable_world)"
    by simp
  have ro: "directory_contains_file ''stats'' ''.'' (files readonly_world) = Inr False"
    "os_Mkdir (files readonly_world) (umask readonly_world) ''stats'' 511
       = (Some ?denied, Dir 365 [])"
    "readonly_world\<lparr>files := Dir 365 []\<rparr> = readonly_world"
    "Stats main_cfg = ''stats''"
    by (simp_all add: env_eval readonly_world_def main_cfg_def)
  from Init_Env_results_and_binaries
    [of main_cfg readonly_world _ _ ?denied readonly_world _ "''stats''" "Dir 365 []"] ro
  have m1: "make_if_needed ''stats'' readonly_world = (Some ?denied, readonly_world)"
    by simp
  from Init_Env_results_and_binaries
    [of main_cfg readonly_world _ _ ?denied readonly_world] m1 ro(4)
  have i1: "Init_Env main_cfg readonly_world = (Some ?denied, readonly_world)"
    by simp
  from Init_Env_results_and_binaries
    [of main_cfg readonly_world _ _ ?denied readonly_world _ _ _ example_extern] i1
  have f1: "main example_extern readonly_world
      = (Fatal ''mkdir stats: permission denied'', readonly_world)"
    by simp
  have n1: "make_if_needed (Stats nested_cfg) fresh_world = (None, ?W2)"
    by (simp add: env_eval fresh_world_def nested_cfg_def)
  have n2: "make_if_needed (Bin nested_cfg) ?W2 = (Some ?missing, ?W2)"
    by (simp add: env_eval fresh_world_def nested_cfg_def)
  from Init_Env_results_and_binaries [of nested_cfg fresh_world _ _ ?missing ?W2 ?W2] n1 n2
  have i2: "Init_Env nested_cfg fresh_world = (Some ?missing, ?W2)"
    by simp
  from Init_Env_fresh fresh(1) made1 made2 Init_Env_nested out(1) made3 ul i0 f0
    ro(1,2) i1 f1 n1 n2 i2
  show ?thesis by blast
qed

section \<open>What the report parser accepts\<close>

lemma scan_list_no_duration:
  "\<forall>l\<in>set ls. \<exists>e. match_exp l match_duration_exp = Inl e \<Longrightarrow> scan_list nd ls b n = (b, n)"
  by (induction ls) auto

lemma scan_list_first_duration_line:
  assumes "\<forall>l\<in>set pre. \<exists>e. match_exp l match_duration_exp = Inl e"
    and "match_exp l match_duration_exp = Inr m"
    and "match_exp l match_uncertainty_exp = Inr m'"
  shows "scan_list nd (pre @ l # post) b n
     = (b\<lparr>Runtime := get_float nd m, Uncertainty := get_float nd m'\<rparr>, n + 2)"
  using assms by (induction pre) auto

text \<open>
  A report in which no line matches the duration pattern is refused, whatever it holds
  of uncertainties, and the benchmark stays as it was.
\<close>

lemma report_without_duration_fails:
  assumes "os_Open (files w) (path [Stats cfg, Name (heap w benchmark) @ ''.txt'']) = Inr (File s)"
    and "\<forall>l\<in>set (chunks s). \<exists>e. match_exp l match_duration_exp = Inl e"
  shows "get_benchmark_results X cfg benchmark w = (Some IncompleteReport, w)"
  by (simp add: get_benchmark_results_File [OF assms(1)] scan_list_no_duration [OF assms(2)])

text \<open>
  A report is parsed when the first line that matches the duration pattern matches the
  uncertainty pattern too, as the line of the measurement tool does: both values are
  taken from that line and the rest of the report is not read.
\<close>

lemma report_with_both_on_one_line_parses:
  assumes "os_Open (files w) (path [Stats cfg, Name (heap w benchmark) @ ''.txt'']) = Inr (File s)"
    and "chunks s = pre @ l # post"
    and "\<forall>l\<in>set pre. \<exists>e. match_exp l match_duration_exp = Inl e"
    and "match_exp l match_duration_exp = Inr m"
    and "match_exp l match_uncertainty_exp = Inr m'"
  shows "get_benchmark_results X cfg benchmark w
     = (None, w\<lparr>heap := (heap w)(benchmark := (heap w benchmark)
          \<lparr>Runtime := get_float (nd_table X) m, Uncertainty := get_float (nd_table X) m'\<rparr>)\<rparr>)"
  by (simp add: get_benchmark_results_File [OF assms(1)] assms(2)
      scan_list_first_duration_line [OF assms(3,4,5)])

end
